theory Spec2Isabelle
  imports Complex_Main "HOL-Library.AList" "HOL-Library.Sublist"
begin


section \<open>Python values, dictionaries and errors\<close>

text \<open>
  Metadata and filter dictionaries hold strings and integers (Python's \<open>True\<close> and
  \<open>False\<close> are the integers 1 and 0 under \<open>==\<close>); \<open>PNone\<close> is what \<open>dict.get\<close>
  returns for a missing key. A dictionary is an association list in insertion order with
  unique keys: \<open>AList.update\<close> overwrites in place or appends, as \<open>d[k] = v\<close> does.
\<close>

datatype pyval = PNone | PStr string | PInt int

type_synonym pydict = "(string \<times> pyval) list"

datatype py_error = ValueError string | ZeroDivisionError | ImportError string | AdapterError string

definition dict_get :: "pydict \<Rightarrow> string \<Rightarrow> pyval" where
  "dict_get d k = (case map_of d k of None \<Rightarrow> PNone | Some v \<Rightarrow> v)"

definition dict_get_default :: "pydict \<Rightarrow> string \<Rightarrow> pyval \<Rightarrow> pyval" where
  "dict_get_default d k dflt = (case map_of d k of None \<Rightarrow> dflt | Some v \<Rightarrow> v)"

definition dict_update :: "pydict \<Rightarrow> pydict \<Rightarrow> pydict" where
  \<comment> \<open>\<open>d.update(e)\<close>, also the literal \<open>{**d, **e}\<close>: the entries of \<open>e\<close> win.\<close>
  "dict_update d e = fold (\<lambda>kv acc. AList.update (fst kv) (snd kv) acc) e d"

definition count_get :: "(string \<times> nat) list \<Rightarrow> string \<Rightarrow> nat" where
  \<comment> \<open>\<open>d.get(k, 0)\<close> on a dictionary of counts.\<close>
  "count_get d k = (case map_of d k of None \<Rightarrow> 0 | Some n \<Rightarrow> n)"

definition slice_to :: "int \<Rightarrow> 'a list \<Rightarrow> 'a list" where
  \<comment> \<open>\<open>xs[:k]\<close>: a negative \<open>k\<close> counts from the end.\<close>
  "slice_to k xs = (if 0 \<le> k then take (nat k) xs else take (nat (int (length xs) + k)) xs)"

definition sort_desc :: "('a \<Rightarrow> real) \<Rightarrow> 'a list \<Rightarrow> 'a list" where
  \<comment> \<open>\<open>sorted(xs, key=f, reverse=True)\<close>: descending and stable (equal keys keep
      their original order).\<close>
  "sort_desc f xs = sort_key (\<lambda>x. - f x) xs"

section \<open>Strings (ASCII)\<close>

text \<open>
  Strings are lists of 8-bit characters. \<open>str.lower\<close>, \<open>str.strip\<close>, \<open>str.split\<close>
  and the regular expression class \<open>\w\<close> are modelled on ASCII text, where a character
  is a byte and lower-casing keeps the length.
\<close>

definition lower_char :: "char \<Rightarrow> char" where
  "lower_char c =
     (case map_of (zip ''ABCDEFGHIJKLMNOPQRSTUVWXYZ'' ''abcdefghijklmnopqrstuvwxyz'') c of
        None \<Rightarrow> c | Some d \<Rightarrow> d)"

definition lower :: "string \<Rightarrow> string" where
  "lower s = map lower_char s"

definition is_word_char :: "char \<Rightarrow> bool" where
  \<comment> \<open>The regular expression class \<open>\w\<close>, on ASCII.\<close>
  "is_word_char c \<longleftrightarrow>
     c \<in> set ''abcdefghijklmnopqrstuvwxyzABCDEFGHIJKLMNOPQRSTUVWXYZ0123456789_''"

definition is_space :: "char \<Rightarrow> bool" where
  \<comment> \<open>\<open>str.isspace\<close> on ASCII: tab, newline, vertical tab, form feed, carriage return,
      the separators 0x1c to 0x1f, and the space.\<close>
  "is_space c \<longleftrightarrow> of_char c \<in> {9, 10, 11, 12, 13, 28, 29, 30, 31, 32 :: nat}"

definition strip :: "string \<Rightarrow> string" where
  "strip s = rev (dropWhile is_space (rev (dropWhile is_space s)))"

fun findall_words :: "string \<Rightarrow> string \<Rightarrow> string list" where
  \<comment> \<open>\<open>re.findall(r'\b\w+\b', text)\<close>: the maximal runs of word characters, left to
      right; the first argument is the run being read.\<close>
  "findall_words cur [] = (if cur = [] then [] else [cur])"
| "findall_words cur (c # cs) =
     (if is_word_char c then findall_words (cur @ [c]) cs
      else if cur = [] then findall_words [] cs
      else cur # findall_words [] cs)"

fun split_sentences :: "bool \<Rightarrow> string \<Rightarrow> string \<Rightarrow> string list" where
  \<comment> \<open>\<open>re.split(r'[.!?]+', text)\<close>: the pieces between maximal runs of sentence
      punctuation, empty pieces included; the flag says that the previous character
      belonged to such a run.\<close>
  "split_sentences in_sep cur [] = [cur]"
| "split_sentences in_sep cur (c # cs) =
     (if c \<in> set ''.!?'' then
        (if in_sep then split_sentences True cur cs
         else cur # split_sentences True [] cs)
      else split_sentences False (cur @ [c]) cs)"

definition digit_char :: "nat \<Rightarrow> char" where
  "digit_char d = ''0123456789'' ! (d mod 10)"

fun str_nat :: "nat \<Rightarrow> string" where
  \<comment> \<open>\<open>str(i)\<close> for a non-negative integer.\<close>
  "str_nat n = (if n < 10 then [digit_char n] else str_nat (n div 10) @ [digit_char (n mod 10)])"

declare str_nat.simps [simp del]

section \<open>The indexer contract (base\_indexer.py)\<close>

text \<open>
  Wall-clock readings (\<open>datetime.utcnow()\<close>) and fresh identifiers (\<open>uuid.uuid4()\<close>) are
  inputs of the operations that take them: \<open>now\<close> and \<open>new_id\<close>. The field
  \<open>created_at\<close> of an indexed document is a clock reading nothing reads; it is left out.
\<close>

record indexed_document =
  doc_id :: string
  content :: string
  metadata :: pydict
  chunk_index :: nat

record search_result =
  sr_content :: string
  sr_score :: real
  sr_metadata :: pydict
  sr_doc_id :: pyval
  sr_chunk_index :: pyval

record index_stats =
  documents_indexed :: nat
  chunks_created :: nat
  last_updated :: "string option"
  strategy :: string

record index_result =
  res_doc_id :: string
  res_chunks_created :: nat
  res_strategy :: string
  res_success :: bool

text \<open>
  \<open>BaseIndexer\<close> holds the session id and the statistics. Every subclass adds a list
  \<open>documents\<close>; it is declared here once so that the three indexers share the name.
\<close>

record base_indexer =
  session_id :: string
  index_stats :: index_stats
  documents :: "indexed_document list"

definition fresh_stats :: "string \<Rightarrow> index_stats" where
  "fresh_stats cls = \<lparr>documents_indexed = 0, chunks_created = 0, last_updated = None, strategy = cls\<rparr>"

definition update_stats :: "nat \<Rightarrow> nat \<Rightarrow> string \<Rightarrow> index_stats \<Rightarrow> index_stats" where
  "update_stats documents_added chunks_added now st =
     st\<lparr>documents_indexed := documents_indexed st + documents_added,
        chunks_created := chunks_created st + chunks_added,
        last_updated := Some now\<rparr>"

definition base_metadata :: "string \<Rightarrow> string \<Rightarrow> string \<Rightarrow> pydict option \<Rightarrow> pydict" where
  \<comment> \<open>\<open>{"session_id": ..., "doc_id": ..., "indexed_at": ..., **metadata}\<close>, with
      \<open>metadata = None\<close> read as the empty dictionary.\<close>
  "base_metadata sid new_id now md =
     dict_update [(''session_id'', PStr sid), (''doc_id'', PStr new_id), (''indexed_at'', PStr now)]
       (case md of None \<Rightarrow> [] | Some m \<Rightarrow> m)"

definition chunk_id_of :: "string \<Rightarrow> nat \<Rightarrow> string" where
  "chunk_id_of new_id i = new_id @ ''_'' @ str_nat i"

definition chunk_metadata :: "pydict \<Rightarrow> string \<Rightarrow> nat \<Rightarrow> pydict" where
  "chunk_metadata base new_id i =
     AList.update ''chunk_id'' (PStr (chunk_id_of new_id i))
       (AList.update ''chunk_index'' (PInt (int i)) base)"

section \<open>The keyword indexer (keyword\_indexer.py)\<close>

text \<open>
  Python's floats are modelled as real numbers, and its unbounded integers that count
  chunks and terms as natural numbers. \<open>settings.chunk_size\<close> is the parameter
  \<open>chunk_size\<close>. One clock reading \<open>now\<close> stands for the readings of one call.
\<close>

record keyword_indexer = base_indexer +
  term_frequencies :: "(string \<times> (string \<times> nat) list) list"
  document_frequencies :: "(string \<times> nat) list"
  total_documents :: nat
  avg_doc_length :: real
  doc_lengths :: "(string \<times> nat) list"

definition k1 :: real where
  "k1 = 1.5"

definition b :: real where
  "b = 0.75"

definition keyword_init :: "string \<Rightarrow> keyword_indexer" where
  "keyword_init sid =
     \<lparr>session_id = sid, index_stats = fresh_stats ''KeywordIndexer'', documents = [],
      term_frequencies = [], document_frequencies = [], total_documents = 0,
      avg_doc_length = 0, doc_lengths = []\<rparr>"

definition preprocess_text :: "string \<Rightarrow> string list" where
  "preprocess_text text = findall_words [] (lower text)"

definition chunk_step :: "int \<Rightarrow> string \<Rightarrow> string list \<times> string \<Rightarrow> string list \<times> string" where
  \<comment> \<open>One round of the loop of \<open>_chunk_text\<close>; the state is \<open>(chunks, current_chunk)\<close>.\<close>
  "chunk_step chunk_size sentence0 st =
     (let chunks = fst st; current_chunk = snd st; sentence = strip sentence0 in
      if sentence = [] then st
      else if int (length current_chunk) + int (length sentence) < chunk_size then
        (chunks, if current_chunk \<noteq> [] then current_chunk @ '' '' @ sentence else sentence)
      else
        (if current_chunk \<noteq> [] then chunks @ [current_chunk] else chunks, sentence))"

definition chunk_text :: "int \<Rightarrow> string \<Rightarrow> string list" where
  "chunk_text chunk_size text =
     (let st = fold (chunk_step chunk_size) (split_sentences False [] text) ([], []);
          chunks = (if snd st \<noteq> [] then fst st @ [snd st] else fst st)
      in if chunks \<noteq> [] then chunks else [text])"

definition counter :: "string list \<Rightarrow> (string \<times> nat) list" where
  \<comment> \<open>\<open>Counter(words)\<close>, keys in order of first occurrence.\<close>
  "counter ws = fold (\<lambda>w d. AList.update w (count_get d w + 1) d) ws []"

definition bump_all :: "string list \<Rightarrow> (string \<times> nat) list \<Rightarrow> (string \<times> nat) list" where
  \<comment> \<open>\<open>for word in ws: df[word] = df.get(word, 0) + 1\<close>.\<close>
  "bump_all ws df = fold (\<lambda>w d. AList.update w (count_get d w + 1) d) ws df"

definition index_chunk :: "string \<Rightarrow> pydict \<Rightarrow> nat \<times> string \<Rightarrow> keyword_indexer \<Rightarrow> keyword_indexer" where
  \<comment> \<open>The body of the loop of \<open>index_document\<close>. Python iterates \<open>set(words)\<close> in an
      order of its own; the counts do not depend on it, and \<open>remdups\<close> fixes one.\<close>
  "index_chunk new_id base ic s =
     (let i = fst ic; chunk = snd ic;
          chunk_id = chunk_id_of new_id i;
          words = preprocess_text chunk;
          word_counts = counter words;
          indexed_doc = \<lparr>doc_id = chunk_id, content = chunk,
                         metadata = chunk_metadata base new_id i, chunk_index = i\<rparr>
      in s\<lparr>documents := documents s @ [indexed_doc],
           term_frequencies := AList.update chunk_id word_counts (term_frequencies s),
           doc_lengths := AList.update chunk_id (length words) (doc_lengths s),
           document_frequencies := bump_all (remdups words) (document_frequencies s)\<rparr>)"

definition update_avg_doc_length :: "keyword_indexer \<Rightarrow> keyword_indexer" where
  "update_avg_doc_length s =
     (if doc_lengths s \<noteq> [] then
        s\<lparr>avg_doc_length := real (sum_list (map snd (doc_lengths s))) / real (length (doc_lengths s))\<rparr>
      else s)"

definition index_document ::
  "int \<Rightarrow> keyword_indexer \<Rightarrow> string \<Rightarrow> pydict option \<Rightarrow> string \<Rightarrow> string \<Rightarrow> keyword_indexer \<times> index_result" where
  "index_document chunk_size s document md new_id now =
     (let base = base_metadata (session_id s) new_id now md;
          chunks = chunk_text chunk_size document;
          s1 = fold (index_chunk new_id base) (enumerate 0 chunks) s;
          s2 = s1\<lparr>total_documents := total_documents s1 + length chunks\<rparr>;
          s3 = update_avg_doc_length s2;
          s4 = s3\<lparr>index_stats := update_stats 1 (length chunks) now (index_stats s3)\<rparr>
      in (s4, \<lparr>res_doc_id = new_id, res_chunks_created = length chunks,
                res_strategy = ''keyword'', res_success = True\<rparr>))"

definition idf :: "nat \<Rightarrow> nat \<Rightarrow> real" where
  "idf n df = ln ((real n - real df + 0.5) / (real df + 0.5))"

definition term_score :: "nat \<Rightarrow> nat \<Rightarrow> nat \<Rightarrow> real \<Rightarrow> nat \<Rightarrow> real" where
  \<comment> \<open>\<open>idf * (numerator / denominator)\<close> for one term: corpus size, document frequency,
      chunk length, average length, term frequency.\<close>
  "term_score n df doc_length avg tf =
     idf n df * (real tf * (k1 + 1) / (real tf + k1 * (1 - b + b * (real doc_length / avg))))"

definition bm25_term ::
  "keyword_indexer \<Rightarrow> (string \<times> nat) list \<Rightarrow> nat \<Rightarrow> string \<Rightarrow> real \<Rightarrow> py_error + real" where
  \<comment> \<open>One round of the loop of \<open>_calculate_bm25_score\<close>. \<open>math.log\<close> raises on a
      non-positive argument, and a division on a zero divisor.\<close>
  "bm25_term s tfs doc_length term score =
     (case map_of tfs term of
        None \<Rightarrow> Inr score
      | Some tf \<Rightarrow>
          (let df = count_get (document_frequencies s) term in
           if df = 0 then Inr score
           else if (real (total_documents s) - real df + 0.5) / (real df + 0.5) \<le> 0
             then Inl (ValueError ''math domain error'')
           else if avg_doc_length s = 0 then Inl ZeroDivisionError
           else if real tf + k1 * (1 - b + b * (real doc_length / avg_doc_length s)) = 0
             then Inl ZeroDivisionError
           else Inr (score + term_score (total_documents s) df doc_length (avg_doc_length s) tf)))"

fun bm25_terms ::
  "keyword_indexer \<Rightarrow> (string \<times> nat) list \<Rightarrow> nat \<Rightarrow> string list \<Rightarrow> real \<Rightarrow> py_error + real" where
  "bm25_terms s tfs doc_length [] score = Inr score"
| "bm25_terms s tfs doc_length (t # ts) score =
     (case bm25_term s tfs doc_length t score of
        Inl e \<Rightarrow> Inl e
      | Inr score' \<Rightarrow> bm25_terms s tfs doc_length ts score')"

definition calculate_bm25_score :: "keyword_indexer \<Rightarrow> string list \<Rightarrow> string \<Rightarrow> py_error + real" where
  "calculate_bm25_score s query_terms did =
     (case map_of (term_frequencies s) did of
        None \<Rightarrow> Inr 0
      | Some tfs \<Rightarrow> bm25_terms s tfs (count_get (doc_lengths s) did) query_terms 0)"

definition in_session :: "string \<Rightarrow> indexed_document \<Rightarrow> bool" where
  "in_session sid doc \<longleftrightarrow> dict_get (metadata doc) ''session_id'' = PStr sid"

definition passes_filters :: "pydict option \<Rightarrow> indexed_document \<Rightarrow> bool" where
  \<comment> \<open>\<open>if filters:\<close> skips \<open>None\<close> and the empty dictionary; otherwise every entry of
      the filter must equal the chunk's metadata value.\<close>
  "passes_filters filters doc =
     (case filters of
        None \<Rightarrow> True
      | Some fs \<Rightarrow> list_all (\<lambda>kv. dict_get (metadata doc) (fst kv) = snd kv) fs)"

fun score_documents ::
  "keyword_indexer \<Rightarrow> string list \<Rightarrow> pydict option \<Rightarrow> indexed_document list \<Rightarrow>
   py_error + (indexed_document \<times> real) list" where
  "score_documents s query_terms filters [] = Inr []"
| "score_documents s query_terms filters (doc # docs) =
     (if \<not> in_session (session_id s) doc then score_documents s query_terms filters docs
      else if \<not> passes_filters filters doc then score_documents s query_terms filters docs
      else
        (case calculate_bm25_score s query_terms (doc_id doc) of
           Inl e \<Rightarrow> Inl e
         | Inr score \<Rightarrow>
             (case score_documents s query_terms filters docs of
                Inl e \<Rightarrow> Inl e
              | Inr rest \<Rightarrow> Inr (if 0 < score then (doc, score) # rest else rest))))"

definition to_result :: "indexed_document \<times> real \<Rightarrow> search_result" where
  "to_result ds =
     \<lparr>sr_content = content (fst ds), sr_score = snd ds, sr_metadata = metadata (fst ds),
      sr_doc_id = dict_get_default (metadata (fst ds)) ''doc_id'' (PStr []),
      sr_chunk_index = PInt (int (chunk_index (fst ds)))\<rparr>"

definition ranked ::
  "keyword_indexer \<Rightarrow> string \<Rightarrow> int \<Rightarrow> pydict option \<Rightarrow> py_error + (indexed_document \<times> real) list" where
  \<comment> \<open>The list \<open>scores\<close> of \<open>search\<close> after sorting and truncation.\<close>
  "ranked s query top_k filters =
     (if documents s = [] then Inr []
      else if preprocess_text query = [] then Inr []
      else
        (case score_documents s (preprocess_text query) filters (documents s) of
           Inl e \<Rightarrow> Inl e
         | Inr scores \<Rightarrow> Inr (slice_to top_k (sort_desc snd scores))))"

definition search :: "keyword_indexer \<Rightarrow> string \<Rightarrow> int \<Rightarrow> pydict option \<Rightarrow> py_error + search_result list" where
  "search s query top_k filters =
     (case ranked s query top_k filters of
        Inl e \<Rightarrow> Inl e
      | Inr scores \<Rightarrow> Inr (map to_result scores))"

definition recompute_document_frequencies ::
  "(string \<times> (string \<times> nat) list) list \<Rightarrow> (string \<times> nat) list" where
  "recompute_document_frequencies tfs = fold (\<lambda>e df. bump_all (map fst (snd e)) df) tfs []"

definition delete_session_data :: "keyword_indexer \<Rightarrow> keyword_indexer \<times> bool" where
  "delete_session_data s =
     (let session_docs = filter (in_session (session_id s)) (documents s);
          tfs = fold (\<lambda>doc tf. AList.delete (doc_id doc) tf) session_docs (term_frequencies s);
          dls = fold (\<lambda>doc dl. AList.delete (doc_id doc) dl) session_docs (doc_lengths s);
          s1 = s\<lparr>documents := filter (\<lambda>doc. \<not> in_session (session_id s) doc) (documents s),
                 term_frequencies := tfs, doc_lengths := dls,
                 document_frequencies := recompute_document_frequencies tfs\<rparr>;
          s2 = update_avg_doc_length (s1\<lparr>total_documents := length (documents s1)\<rparr>)
      in (s2\<lparr>index_stats := fresh_stats ''KeywordIndexer''\<rparr>, True))"

section \<open>Reachable states of the keyword indexer and its invariant\<close>

text \<open>
  \<open>uuid.uuid4()\<close> yields identifiers of one fixed length without an underscore, so no
  chunk id built from an earlier identifier starts with a new identifier followed by an
  underscore: \<open>fresh_id\<close> states that of the identifier handed to \<open>index_document\<close>.
  A state is reachable when it comes from a new indexer by \<open>index_document\<close> (with
  fresh identifiers) and \<open>delete_session_data\<close>, under one configured chunk size.
\<close>

definition digit_val :: "char \<Rightarrow> nat" where
  "digit_val c = (case map_of (zip ''0123456789'' [0 ..< 10]) c of None \<Rightarrow> 0 | Some v \<Rightarrow> v)"

definition nat_of_str :: "string \<Rightarrow> nat" where
  "nat_of_str s = fold (\<lambda>c acc. acc * 10 + digit_val c) s 0"

definition chunks_with :: "(string \<times> (string \<times> nat) list) list \<Rightarrow> string \<Rightarrow> nat" where
  "chunks_with tfs t = length (filter (\<lambda>e. t \<in> fst ` set (snd e)) tfs)"

definition keys_ok :: "keyword_indexer \<Rightarrow> bool" where
  "keys_ok s \<longleftrightarrow>
     map fst (term_frequencies s) = map doc_id (documents s) \<and>
     map fst (doc_lengths s) = map doc_id (documents s) \<and>
     distinct (map doc_id (documents s))"

definition tfs_ok :: "keyword_indexer \<Rightarrow> bool" where
  "tfs_ok s \<longleftrightarrow>
     (\<forall>e \<in> set (term_frequencies s).
        distinct (map fst (snd e)) \<and> (\<forall>p \<in> set (snd e). 0 < snd p) \<and>
        (snd e \<noteq> [] \<longrightarrow> 0 < count_get (doc_lengths s) (fst e)))"

definition df_ok :: "keyword_indexer \<Rightarrow> bool" where
  "df_ok s \<longleftrightarrow> (\<forall>t. count_get (document_frequencies s) t = chunks_with (term_frequencies s) t)"

definition totals_ok :: "keyword_indexer \<Rightarrow> bool" where
  "totals_ok s \<longleftrightarrow>
     total_documents s = length (documents s) \<and>
     (doc_lengths s \<noteq> [] \<longrightarrow>
        avg_doc_length s = real (sum_list (map snd (doc_lengths s))) / real (length (doc_lengths s)))"

definition kw_inv :: "keyword_indexer \<Rightarrow> bool" where
  "kw_inv s \<longleftrightarrow> keys_ok s \<and> tfs_ok s \<and> df_ok s \<and> totals_ok s"

definition fresh_id :: "string \<Rightarrow> keyword_indexer \<Rightarrow> bool" where
  "fresh_id new_id s \<longleftrightarrow> list_all (\<lambda>d. \<not> prefix (new_id @ ''_'') (doc_id d)) (documents s)"

inductive reachable :: "int \<Rightarrow> keyword_indexer \<Rightarrow> bool" for chunk_size where
  r_init: "reachable chunk_size (keyword_init sid)"
| r_index: "reachable chunk_size s \<Longrightarrow> fresh_id new_id s \<Longrightarrow>
     reachable chunk_size (fst (index_document chunk_size s document md new_id now))"
| r_delete: "reachable chunk_size s \<Longrightarrow> reachable chunk_size (fst (delete_session_data s))"

text \<open>
  \<open>tf_of s c\<close> is \<open>term_frequencies[c]\<close>, empty for an unknown chunk. \<open>spec_bm25\<close> is
  the score of one term as the specification writes it, with its constants 1.5 and 0.75;
  \<open>contribution\<close> is what one round of the scoring loop adds.
\<close>

definition tf_of :: "keyword_indexer \<Rightarrow> string \<Rightarrow> (string \<times> nat) list" where
  "tf_of s k = (case map_of (term_frequencies s) k of None \<Rightarrow> [] | Some tf \<Rightarrow> tf)"

definition spec_bm25 :: "nat \<Rightarrow> nat \<Rightarrow> nat \<Rightarrow> real \<Rightarrow> real \<Rightarrow> real" where
  "spec_bm25 n df tf chunk_len avg_len =
     ln ((real n - real df + 0.5) / (real df + 0.5)) * real tf * (1.5 + 1) /
       (real tf + 1.5 * (1 - 0.75 + 0.75 * (chunk_len / avg_len)))"

definition contribution :: "keyword_indexer \<Rightarrow> (string \<times> nat) list \<Rightarrow> nat \<Rightarrow> string \<Rightarrow> real" where
  "contribution s tfs doc_length t =
     (case map_of tfs t of
        None \<Rightarrow> 0
      | Some tf \<Rightarrow>
          if count_get (document_frequencies s) t = 0 then 0
          else term_score (total_documents s) (count_get (document_frequencies s) t)
                 doc_length (avg_doc_length s) tf)"

text \<open>Two sentences ingested under a chunk size of 20: two chunks.\<close>

definition scenario_b :: keyword_indexer where
  "scenario_b = fst (index_document 20 (keyword_init ''s'') ''Python is great. SQL is also great.'' None ''d'' ''t'')"

definition bm25_value :: "keyword_indexer \<Rightarrow> string list \<Rightarrow> string \<Rightarrow> real" where
  "bm25_value s query_terms did =
     sum_list (map (contribution s (tf_of s did) (count_get (doc_lengths s) did)) query_terms)"

definition scenario_c :: keyword_indexer where
  "scenario_c = fst (index_document 20 (keyword_init ''s'') ''Python is great. SQL is also great. Java too.'' None ''d'' ''t'')"

definition ranked_above :: "string \<Rightarrow> string \<Rightarrow> search_result list \<Rightarrow> bool" where
  "ranked_above c1 c2 rs \<longleftrightarrow> c1 \<in> set (map sr_content (takeWhile (\<lambda>r. sr_content r \<noteq> c2) rs))"

definition one_a :: keyword_indexer where
  "one_a = fst (index_document 800 (keyword_init ''s'') ''a b'' None ''d'' ''t'')"

definition two_a :: keyword_indexer where
  "two_a = fst (index_document 800 (keyword_init ''s'') ''a a'' None ''d'' ''t'')"

section \<open>The vector search adapter\<close>

text \<open>
  The embedding model and the vector store are external. The indexers use two operations
  of the store, \<open>add_texts\<close> and \<open>similarity_search_with_score\<close>; either may raise. The
  store's state has an arbitrary type \<open>'v\<close>, and an adapter is a pair of functions on it.
  The text splitter (\<open>RecursiveCharacterTextSplitter.split_text\<close>) is a function from a
  document to its chunks, also taken as given.
\<close>

record vdoc =
  page_content :: string
  vmetadata :: pydict

record 'v adapter =
  add_texts :: "'v \<Rightarrow> string list \<Rightarrow> pydict list \<Rightarrow> py_error + 'v"
  similarity_search_with_score :: "'v \<Rightarrow> string \<Rightarrow> int \<Rightarrow> pydict \<Rightarrow> py_error + (vdoc \<times> real) list"

text \<open>
  An adapter for concrete runs: the store is the list of the texts it was given with
  their metadata, and a search returns the first \<open>k\<close> entries whose metadata equals the
  filter on every key of the filter, each with score 1.
\<close>

definition matches :: "pydict \<Rightarrow> pydict \<Rightarrow> bool" where
  "matches flt md = list_all (\<lambda>kv. dict_get md (fst kv) = snd kv) flt"

definition list_adapter :: "(string \<times> pydict) list adapter" where
  "list_adapter =
     \<lparr>add_texts = (\<lambda>store texts metas. Inr (store @ zip texts metas)),
      similarity_search_with_score = (\<lambda>store query k flt.
        Inr (map (\<lambda>e. (\<lparr>page_content = fst e, vmetadata = snd e\<rparr>, 1))
               (slice_to k (filter (\<lambda>e. matches flt (snd e)) store))))\<rparr>"

section \<open>The semantic indexer (semantic\_indexer.py)\<close>

record 'v semantic_indexer = base_indexer +
  vector_store :: 'v

definition semantic_init :: "'v \<Rightarrow> string \<Rightarrow> 'v semantic_indexer" where
  \<comment> \<open>The state after \<open>__init__\<close>, given the store opened for this session.\<close>
  "semantic_init store sid =
     \<lparr>session_id = sid, index_stats = fresh_stats ''SemanticIndexer'', documents = [],
      vector_store = store\<rparr>"

definition semantic_index_document ::
  "'v adapter \<Rightarrow> (string \<Rightarrow> string list) \<Rightarrow> 'v semantic_indexer \<Rightarrow> string \<Rightarrow> pydict option \<Rightarrow>
   string \<Rightarrow> string \<Rightarrow> 'v semantic_indexer \<times> (py_error + index_result)" where
  \<comment> \<open>An exception of \<open>add_texts\<close> propagates; the chunks already appended to
      \<open>documents\<close> stay.\<close>
  "semantic_index_document A split_text s document md new_id now =
     (let base = base_metadata (session_id s) new_id now md;
          chunks = split_text document;
          metadatas_to_add = map (\<lambda>ic. chunk_metadata base new_id (fst ic)) (enumerate 0 chunks);
          s1 = s\<lparr>documents := documents s @
                  map (\<lambda>ic. \<lparr>doc_id = new_id, content = snd ic,
                              metadata = chunk_metadata base new_id (fst ic),
                              chunk_index = fst ic\<rparr>) (enumerate 0 chunks)\<rparr>
      in case add_texts A (vector_store s1) chunks metadatas_to_add of
           Inl e \<Rightarrow> (s1, Inl e)
         | Inr v \<Rightarrow>
             (s1\<lparr>vector_store := v,
                 index_stats := update_stats 1 (length chunks) now (index_stats s1)\<rparr>,
              Inr \<lparr>res_doc_id = new_id, res_chunks_created = length chunks,
                   res_strategy = ''semantic'', res_success = True\<rparr>))"

definition search_filter :: "string \<Rightarrow> pydict option \<Rightarrow> pydict" where
  \<comment> \<open>\<open>search_filter = {"session_id": self.session_id}\<close>, then
      \<open>if filters: search_filter.update(filters)\<close>; the same lines stand in
      \<open>SemanticIndexer.search\<close> and \<open>EnhancedSemanticIndexer._vector_search\<close>.\<close>
  "search_filter sid filters =
     dict_update [(''session_id'', PStr sid)] (case filters of None \<Rightarrow> [] | Some f \<Rightarrow> f)"

definition vector_result :: "vdoc \<times> real \<Rightarrow> search_result" where
  "vector_result r =
     \<lparr>sr_content = page_content (fst r), sr_score = snd r, sr_metadata = vmetadata (fst r),
      sr_doc_id = dict_get_default (vmetadata (fst r)) ''doc_id'' (PStr []),
      sr_chunk_index = dict_get_default (vmetadata (fst r)) ''chunk_index'' (PInt 0)\<rparr>"

definition semantic_search ::
  "'v adapter \<Rightarrow> 'v semantic_indexer \<Rightarrow> string \<Rightarrow> int \<Rightarrow> pydict option \<Rightarrow> search_result list" where
  \<comment> \<open>Any exception is caught and answered with the empty list.\<close>
  "semantic_search A s query top_k filters =
     (case similarity_search_with_score A (vector_store s) query top_k
             (search_filter (session_id s) filters) of
        Inl e \<Rightarrow> []
      | Inr results \<Rightarrow> map vector_result results)"

definition semantic_delete_session_data :: "'v semantic_indexer \<Rightarrow> 'v semantic_indexer \<times> bool" where
  \<comment> \<open>The vector store is not touched: the source says that clearing it "is challenging
      with ChromaDB" and leaves it.\<close>
  "semantic_delete_session_data s =
     (s\<lparr>documents := filter (\<lambda>doc. \<not> in_session (session_id s) doc) (documents s),
        index_stats := fresh_stats ''SemanticIndexer''\<rparr>, True)"

section \<open>The enhanced semantic indexer (enhanced\_semantic\_indexer.py)\<close>

text \<open>
  The enhanced indexer has the fields of the semantic one and the full text of the last
  document. Its chunker \<open>_create_multi_strategy_chunks\<close> (regular expressions for
  sections and contact data, then the text splitter) is a function from a document to
  chunk descriptions, taken as given.
\<close>

record 'v enhanced_semantic_indexer = "'v semantic_indexer" +
  full_text :: string

record chunk_info =
  ci_content :: string
  ci_type :: string
  ci_section :: string

definition enhanced_init :: "'v \<Rightarrow> string \<Rightarrow> 'v enhanced_semantic_indexer" where
  "enhanced_init store sid =
     \<lparr>session_id = sid, index_stats = fresh_stats ''EnhancedSemanticIndexer'', documents = [],
      vector_store = store, full_text = []\<rparr>"

definition enhanced_chunk_metadata :: "pydict \<Rightarrow> string \<Rightarrow> nat \<Rightarrow> chunk_info \<Rightarrow> pydict" where
  "enhanced_chunk_metadata base new_id i ci =
     AList.update ''chunk_section'' (PStr (ci_section ci))
       (AList.update ''chunk_type'' (PStr (ci_type ci)) (chunk_metadata base new_id i))"

definition enhanced_index_document ::
  "'v adapter \<Rightarrow> (string \<Rightarrow> chunk_info list) \<Rightarrow> 'v enhanced_semantic_indexer \<Rightarrow> string \<Rightarrow>
   pydict option \<Rightarrow> string \<Rightarrow> string \<Rightarrow> 'v enhanced_semantic_indexer \<times> (py_error + index_result)" where
  "enhanced_index_document A create_chunks s document md new_id now =
     (let s0 = s\<lparr>full_text := document\<rparr>;
          base = base_metadata (session_id s0) new_id now md;
          chunks = create_chunks document;
          documents_to_add = map ci_content chunks;
          metadatas_to_add =
            map (\<lambda>ic. enhanced_chunk_metadata base new_id (fst ic) (snd ic)) (enumerate 0 chunks);
          s1 = s0\<lparr>documents := documents s0 @
                  map (\<lambda>ic. \<lparr>doc_id = new_id, content = ci_content (snd ic),
                              metadata = enhanced_chunk_metadata base new_id (fst ic) (snd ic),
                              chunk_index = fst ic\<rparr>) (enumerate 0 chunks)\<rparr>
      in case add_texts A (vector_store s1) documents_to_add metadatas_to_add of
           Inl e \<Rightarrow> (s1, Inl e)
         | Inr v \<Rightarrow>
             (s1\<lparr>vector_store := v,
                 index_stats := update_stats 1 (length chunks) now (index_stats s1)\<rparr>,
              Inr \<lparr>res_doc_id = new_id, res_chunks_created = length chunks,
                   res_strategy = ''enhanced_semantic'', res_success = True\<rparr>))"

fun find_from :: "string \<Rightarrow> nat \<Rightarrow> string \<Rightarrow> nat option" where
  "find_from sub i [] = (if sub = [] then Some i else None)"
| "find_from sub i (c # cs) = (if prefix sub (c # cs) then Some i else find_from sub (Suc i) cs)"

definition find_str :: "string \<Rightarrow> string \<Rightarrow> nat option" where
  \<comment> \<open>\<open>s.find(sub)\<close>: the index of the first occurrence, \<open>None\<close> for \<open>-1\<close>.\<close>
  "find_str s sub = find_from sub 0 s"

definition contains :: "string \<Rightarrow> string \<Rightarrow> bool" where
  \<comment> \<open>\<open>sub in s\<close>.\<close>
  "contains s sub \<longleftrightarrow> find_str s sub \<noteq> None"

fun count_from :: "string \<Rightarrow> nat \<Rightarrow> string \<Rightarrow> nat" where
  "count_from sub skip [] = 0"
| "count_from sub skip (c # cs) =
     (if 0 < skip then count_from sub (skip - 1) cs
      else if prefix sub (c # cs) then Suc (count_from sub (length sub - 1) cs)
      else count_from sub 0 cs)"

definition count_str :: "string \<Rightarrow> string \<Rightarrow> nat" where
  \<comment> \<open>\<open>s.count(sub)\<close>: occurrences without overlap, left to right.\<close>
  "count_str s sub = (if sub = [] then length s + 1 else count_from sub 0 s)"

fun split_ws :: "string \<Rightarrow> string \<Rightarrow> string list" where
  \<comment> \<open>\<open>s.split()\<close>: the maximal runs of characters that are not white space.\<close>
  "split_ws cur [] = (if cur = [] then [] else [cur])"
| "split_ws cur (c # cs) =
     (if is_space c then (if cur = [] then split_ws [] cs else cur # split_ws [] cs)
      else split_ws (cur @ [c]) cs)"

definition vector_search ::
  "'v adapter \<Rightarrow> 'v enhanced_semantic_indexer \<Rightarrow> string \<Rightarrow> int \<Rightarrow> pydict option \<Rightarrow>
   py_error + search_result list" where
  "vector_search A s query top_k filters =
     (case similarity_search_with_score A (vector_store s) query top_k
             (search_filter (session_id s) filters) of
        Inl e \<Rightarrow> Inl e
      | Inr results \<Rightarrow> Inr (map vector_result results))"

definition contact_result :: "vdoc \<times> real \<Rightarrow> search_result" where
  "contact_result r =
     \<lparr>sr_content = page_content (fst r), sr_score = snd r + 0.1, sr_metadata = vmetadata (fst r),
      sr_doc_id = dict_get_default (vmetadata (fst r)) ''doc_id'' (PStr []),
      sr_chunk_index = dict_get_default (vmetadata (fst r)) ''chunk_index'' (PInt 0)\<rparr>"

definition contact_search ::
  "'v adapter \<Rightarrow> 'v enhanced_semantic_indexer \<Rightarrow> string \<Rightarrow> pydict option \<Rightarrow> search_result list" where
  "contact_search A s query filters =
     (case similarity_search_with_score A (vector_store s) query 5
             (dict_update [(''session_id'', PStr (session_id s)), (''chunk_type'', PStr ''contact'')]
                (case filters of None \<Rightarrow> [] | Some f \<Rightarrow> f)) of
        Inl e \<Rightarrow> []
      | Inr results \<Rightarrow> map contact_result results)"

definition keyword_hit :: "string \<Rightarrow> string \<Rightarrow> search_result list" where
  \<comment> \<open>One round of the loop of \<open>_keyword_search\<close>: no result when the term does not
      occur in the text, else the stripped window of 200 characters around its first
      occurrence.\<close>
  "keyword_hit text term =
     (case find_str (lower text) term of
        None \<Rightarrow> []
      | Some term_index \<Rightarrow>
          (let start = term_index - 200;
               stop = min (length text) (term_index + length term + 200);
               snippet = strip (take (stop - start) (drop start text))
           in [\<lparr>sr_content = snippet,
                 sr_score = real (count_str (lower snippet) term) * 0.1,
                 sr_metadata = [(''doc_id'', PStr ''fallback''), (''chunk_type'', PStr ''keyword'')],
                 sr_doc_id = PStr ''fallback'', sr_chunk_index = PInt 0\<rparr>]))"

definition keyword_search ::
  "'v enhanced_semantic_indexer \<Rightarrow> string \<Rightarrow> pydict option \<Rightarrow> search_result list" where
  "keyword_search s query filters =
     (if full_text s = [] then []
      else concat (map (keyword_hit (full_text s)) (split_ws [] (lower query))))"

definition dedup_key :: "search_result \<Rightarrow> string" where
  "dedup_key r = strip (take 100 (sr_content r))"

fun dedup_loop :: "string set \<Rightarrow> search_result list \<Rightarrow> search_result list" where
  "dedup_loop seen [] = []"
| "dedup_loop seen (r # rs) =
     (if dedup_key r \<in> seen then dedup_loop seen rs
      else r # dedup_loop (insert (dedup_key r) seen) rs)"

definition deduplicate_results :: "search_result list \<Rightarrow> search_result list" where
  "deduplicate_results results = dedup_loop {} results"

definition mentions_contact :: "string \<Rightarrow> bool" where
  "mentions_contact query \<longleftrightarrow>
     list_ex (\<lambda>term. contains (lower query) term)
       [''name'', ''email'', ''phone'', ''linkedin'', ''github'']"

definition merged_results ::
  "'v adapter \<Rightarrow> 'v enhanced_semantic_indexer \<Rightarrow> string \<Rightarrow> pydict option \<Rightarrow> search_result list \<Rightarrow>
   search_result list" where
  \<comment> \<open>\<open>all_results\<close> of \<open>search\<close>, from the results of the vector search on.\<close>
  "merged_results A s query filters vector_results =
     (let all1 = vector_results @
                 (if mentions_contact query then contact_search A s query filters else [])
      in all1 @ (if length all1 < 3 then keyword_search s query filters else []))"

definition enhanced_search ::
  "'v adapter \<Rightarrow> 'v enhanced_semantic_indexer \<Rightarrow> string \<Rightarrow> int \<Rightarrow> pydict option \<Rightarrow> search_result list" where
  \<comment> \<open>An exception of the vector search leaves the \<open>try\<close> block: the empty list.\<close>
  "enhanced_search A s query top_k filters =
     (case vector_search A s query top_k filters of
        Inl e \<Rightarrow> []
      | Inr vector_results \<Rightarrow>
          slice_to top_k
            (sort_desc sr_score
               (deduplicate_results (merged_results A s query filters vector_results))))"

definition enhanced_delete_session_data ::
  "'v enhanced_semantic_indexer \<Rightarrow> 'v enhanced_semantic_indexer \<times> bool" where
  "enhanced_delete_session_data s =
     (s\<lparr>documents := filter (\<lambda>doc. \<not> in_session (session_id s) doc) (documents s),
        full_text := [],
        index_stats := fresh_stats ''EnhancedSemanticIndexer''\<rparr>, True)"

section \<open>Model creation and the indexer factory (model\_factory.py, indexing\_factory.py)\<close>

text \<open>
  The settings are read from the process environment; the fields below are those the
  constructors of the indexers read. Whether the optional packages can be imported, and
  what store the vector database opens for a collection name, belong to the installation:
  they are the fields of \<open>environment\<close>. The constructors of the external classes
  themselves are taken to succeed.
\<close>

record settings =
  embedding_provider :: string
  google_api_key :: "string option"
  openai_api_key :: "string option"
  google_embedding_model :: string
  openai_embedding_model :: string
  vector_store_provider :: string
  indexing_strategy :: string

definition default_settings :: settings where
  \<comment> \<open>The defaults of config.py: no key is set.\<close>
  "default_settings =
     \<lparr>embedding_provider = ''google'', google_api_key = None, openai_api_key = None,
      google_embedding_model = ''models/text-embedding-004'',
      openai_embedding_model = ''text-embedding-3-small'',
      vector_store_provider = ''chromadb'', indexing_strategy = ''semantic''\<rparr>"

datatype embeddings =
  GoogleGenerativeAIEmbeddings string
| OpenAIEmbeddings string string
| HuggingFaceEmbeddings string

record 'v environment =
  openai_installed :: bool
  huggingface_installed :: bool
  faiss_installed :: bool
  chroma_collection :: "embeddings \<Rightarrow> string \<Rightarrow> 'v"
  faiss_class :: 'v

definition missing :: "string option \<Rightarrow> bool" where
  \<comment> \<open>\<open>not key\<close>: the key is \<open>None\<close> or empty.\<close>
  "missing key \<longleftrightarrow> (case key of None \<Rightarrow> True | Some k \<Rightarrow> k = [])"

definition create_embeddings :: "settings \<Rightarrow> 'v environment \<Rightarrow> py_error + embeddings" where
  "create_embeddings st env =
     (let provider = lower (embedding_provider st) in
      if provider = ''google'' then
        (if missing (google_api_key st)
         then Inl (ValueError ''Google API key is required for Google embeddings'')
         else Inr (GoogleGenerativeAIEmbeddings (google_embedding_model st)))
      else if provider = ''openai'' then
        (case openai_api_key st of
           None \<Rightarrow> Inl (ValueError ''OpenAI API key is required for OpenAI embeddings'')
         | Some key \<Rightarrow>
             if key = [] then Inl (ValueError ''OpenAI API key is required for OpenAI embeddings'')
             else if openai_installed env
             then Inr (OpenAIEmbeddings key (openai_embedding_model st))
             else Inl (ImportError ''langchain-openai package is required for OpenAI embeddings''))
      else if provider = ''huggingface'' then
        (if huggingface_installed env
         then Inr (HuggingFaceEmbeddings ''sentence-transformers/all-MiniLM-L6-v2'')
         else Inl (ImportError ''sentence-transformers package is required for HuggingFace embeddings''))
      else Inl (ValueError (''Unsupported embedding provider: '' @ provider)))"

definition create_vector_store ::
  "settings \<Rightarrow> 'v environment \<Rightarrow> embeddings \<Rightarrow> string \<Rightarrow> py_error + 'v" where
  "create_vector_store st env emb collection_name =
     (let provider = lower (vector_store_provider st) in
      if provider = ''chromadb'' then Inr (chroma_collection env emb collection_name)
      else if provider = ''faiss'' then
        (if faiss_installed env then Inr (faiss_class env)
         else Inl (ImportError ''faiss-cpu package is required for FAISS vector store''))
      else Inl (ValueError (''Unsupported vector store provider: '' @ provider)))"

datatype indexer_class = EnhancedSemanticIndexer | SemanticIndexer | KeywordIndexer

datatype 'v indexer =
  KeywordInst keyword_indexer
| SemanticInst "'v semantic_indexer"
| EnhancedInst "'v enhanced_semantic_indexer"

fun class_of :: "'v indexer \<Rightarrow> indexer_class" where
  "class_of (KeywordInst s) = KeywordIndexer"
| "class_of (SemanticInst s) = SemanticIndexer"
| "class_of (EnhancedInst s) = EnhancedSemanticIndexer"

definition indexer_classes :: "(string \<times> indexer_class) list" where
  "indexer_classes =
     [(''semantic'', EnhancedSemanticIndexer), (''basic_semantic'', SemanticIndexer),
      (''keyword'', KeywordIndexer)]"

fun construct :: "settings \<Rightarrow> 'v environment \<Rightarrow> indexer_class \<Rightarrow> string \<Rightarrow> py_error + 'v indexer" where
  \<comment> \<open>\<open>indexer_class(session_id)\<close>: the semantic constructors create the embeddings and
      then open the store of the collection \<open>session_<id>\<close>.\<close>
  "construct st env KeywordIndexer sid = Inr (KeywordInst (keyword_init sid))"
| "construct st env SemanticIndexer sid =
     (case create_embeddings st env of
        Inl e \<Rightarrow> Inl e
      | Inr emb \<Rightarrow>
          (case create_vector_store st env emb (''session_'' @ sid) of
             Inl e \<Rightarrow> Inl e
           | Inr v \<Rightarrow> Inr (SemanticInst (semantic_init v sid))))"
| "construct st env EnhancedSemanticIndexer sid =
     (case create_embeddings st env of
        Inl e \<Rightarrow> Inl e
      | Inr emb \<Rightarrow>
          (case create_vector_store st env emb (''session_'' @ sid) of
             Inl e \<Rightarrow> Inl e
           | Inr v \<Rightarrow> Inr (EnhancedInst (enhanced_init v sid))))"

fun join :: "string \<Rightarrow> string list \<Rightarrow> string" where
  "join sep [] = []"
| "join sep [x] = x"
| "join sep (x # y # ys) = x @ sep @ join sep (y # ys)"

definition create_indexer ::
  "settings \<Rightarrow> 'v environment \<Rightarrow> string \<Rightarrow> string \<Rightarrow> py_error + 'v indexer" where
  "create_indexer st env strategy0 sid =
     (let strategy = lower strategy0 in
      case map_of indexer_classes strategy of
        None \<Rightarrow>
          Inl (ValueError (''Unknown indexing strategy: '' @ strategy @ ''. Available: '' @
                 join '', '' (map fst indexer_classes)))
      | Some indexer_class \<Rightarrow> construct st env indexer_class sid)"

text \<open>An installation without the optional packages, over the list store.\<close>

definition bare_environment :: "(string \<times> pydict) list environment" where
  "bare_environment =
     \<lparr>openai_installed = False, huggingface_installed = False, faiss_installed = False,
      chroma_collection = (\<lambda>emb name. []), faiss_class = []\<rparr>"

text \<open>Concrete indexers and candidates for the runs evaluated below.\<close>

definition hello_indexed :: "(string \<times> pydict) list semantic_indexer" where
  "hello_indexed =
     fst (semantic_index_document list_adapter (\<lambda>d. [d]) (semantic_init [] ''s'') ''hello'' None ''d'' ''t'')"

definition cand :: "string \<Rightarrow> real \<Rightarrow> search_result" where
  "cand text sc =
     \<lparr>sr_content = text, sr_score = sc, sr_metadata = [], sr_doc_id = PStr [], sr_chunk_index = PInt 0\<rparr>"

definition one_chunk :: "string \<Rightarrow> chunk_info list" where
  "one_chunk document = [\<lparr>ci_content = document, ci_type = ''semantic'', ci_section = ''general''\<rparr>]"

definition alpha_then_beta :: "(string \<times> pydict) list enhanced_semantic_indexer" where
  "alpha_then_beta =
     fst (enhanced_index_document list_adapter one_chunk
            (fst (enhanced_index_document list_adapter one_chunk (enhanced_init [] ''s'')
                    ''alpha'' None ''d1'' ''t1''))
            ''beta'' None ''d2'' ''t2'')"

section \<open>Properties of the keyword indexer\<close>

subsection \<open>Chunk identifiers are injective in the chunk number\<close>

lemma digit_val_digit_char: "d < 10 \<Longrightarrow> digit_val (digit_char d) = d"
proof -
  assume "d < 10"
  then have "d \<in> {0, 1, 2, 3, 4, 5, 6, 7, 8, 9}" by auto
  then show ?thesis
    by (auto simp: digit_val_def digit_char_def upt_conv_Cons)
qed

lemma nat_of_str_snoc: "nat_of_str (s @ [c]) = nat_of_str s * 10 + digit_val c"
  by (simp add: nat_of_str_def)

lemma nat_of_str_str_nat: "nat_of_str (str_nat n) = n"
proof (induction n rule: str_nat.induct)
  case (1 n)
  show ?case
  proof (cases "n < 10")
    case True
    then show ?thesis
      by (subst str_nat.simps) (simp add: nat_of_str_def digit_val_digit_char)
  next
    case False
    with 1 have "nat_of_str (str_nat (n div 10)) = n div 10" by simp
    with False show ?thesis
      by (subst str_nat.simps) (simp add: nat_of_str_snoc digit_val_digit_char)
  qed
qed

lemma str_nat_inj: "str_nat i = str_nat j \<Longrightarrow> i = j"
  by (metis nat_of_str_str_nat)

lemma chunk_id_of_inj: "chunk_id_of d i = chunk_id_of d j \<longleftrightarrow> i = j"
  by (auto simp: chunk_id_of_def dest: str_nat_inj)

subsection \<open>Dictionaries of counts\<close>

lemma update_fresh: "k \<notin> fst ` set al \<Longrightarrow> AList.update k v al = al @ [(k, v)]"
  by (induction al) auto

lemma count_get_update: "count_get (AList.update k v d) t = (if t = k then v else count_get d t)"
  by (simp add: count_get_def update_conv')

lemma count_get_bump_all:
  "distinct ws \<Longrightarrow> count_get (bump_all ws df) t = count_get df t + (if t \<in> set ws then 1 else 0)"
  unfolding bump_all_def
proof (induction ws arbitrary: df)
  case Nil
  then show ?case by simp
next
  case (Cons w ws)
  then show ?case by (auto simp: count_get_update)
qed

lemma bump_all_keys: "fst ` set (bump_all ws d) = set ws \<union> fst ` set d"
  unfolding bump_all_def by (induction ws arbitrary: d) (auto simp: dom_update)

lemma bump_all_distinct: "distinct (map fst d) \<Longrightarrow> distinct (map fst (bump_all ws d))"
  unfolding bump_all_def by (induction ws arbitrary: d) (auto simp: distinct_update)

lemma update_pos:
  "\<forall>e \<in> set d. 0 < snd e \<Longrightarrow> 0 < v \<Longrightarrow> \<forall>e \<in> set (AList.update k v d). (0::nat) < snd e"
  by (induction d) auto

lemma bump_all_pos:
  "\<forall>e \<in> set d. 0 < snd e \<Longrightarrow> \<forall>e \<in> set (bump_all ws d). 0 < snd e"
  unfolding bump_all_def
proof (induction ws arbitrary: d)
  case Nil
  then show ?case by simp
next
  case (Cons w ws)
  have "\<forall>e \<in> set (AList.update w (count_get d w + 1) d). 0 < snd e"
    using Cons.prems by (intro update_pos) auto
  then show ?case using Cons.IH by simp
qed

lemma counter_bump_all: "counter ws = bump_all ws []"
  by (simp add: counter_def bump_all_def)

lemma counter_keys: "fst ` set (counter ws) = set ws"
  by (simp add: counter_bump_all bump_all_keys)

lemma counter_distinct: "distinct (map fst (counter ws))"
  by (simp add: counter_bump_all bump_all_distinct)

lemma counter_pos: "\<forall>e \<in> set (counter ws). 0 < snd e"
  using bump_all_pos[of "[]" ws] by (simp add: counter_bump_all)

lemma counter_nonempty: "counter ws \<noteq> [] \<Longrightarrow> ws \<noteq> []"
  by (auto simp: counter_def)

lemma chunks_with_append:
  "chunks_with (tfs @ [(k, tf)]) t = chunks_with tfs t + (if t \<in> fst ` set tf then 1 else 0)"
  by (simp add: chunks_with_def)

subsection \<open>The invariant is kept by ingestion and deletion\<close>

lemma keys_set: "keys_ok s \<Longrightarrow> fst ` set (term_frequencies s) = doc_id ` set (documents s)"
  "keys_ok s \<Longrightarrow> fst ` set (doc_lengths s) = doc_id ` set (documents s)"
  by (metis keys_ok_def set_map)+

lemma index_chunk_keys_ok:
  assumes "keys_ok s" and "chunk_id_of new_id i \<notin> doc_id ` set (documents s)"
  shows "keys_ok (index_chunk new_id base (i, chunk) s)"
proof -
  have a: "chunk_id_of new_id i \<notin> fst ` set (term_frequencies s)"
    and b: "chunk_id_of new_id i \<notin> fst ` set (doc_lengths s)"
    using assms keys_set by auto
  show ?thesis
    using assms by (simp add: keys_ok_def index_chunk_def Let_def update_fresh[OF a] update_fresh[OF b])
qed

lemma index_chunk_tfs_ok:
  assumes "keys_ok s" and "tfs_ok s" and "chunk_id_of new_id i \<notin> doc_id ` set (documents s)"
  shows "tfs_ok (index_chunk new_id base (i, chunk) s)"
proof -
  have a: "chunk_id_of new_id i \<notin> fst ` set (term_frequencies s)"
    using assms keys_set by auto
  have old: "fst e \<noteq> chunk_id_of new_id i" if "e \<in> set (term_frequencies s)" for e
    using a that by force
  show ?thesis
    using assms(2) counter_pos counter_distinct counter_nonempty old
    by (auto simp: tfs_ok_def index_chunk_def Let_def update_fresh[OF a] count_get_update)
qed

lemma index_chunk_df_ok:
  assumes "keys_ok s" and "df_ok s" and "chunk_id_of new_id i \<notin> doc_id ` set (documents s)"
  shows "df_ok (index_chunk new_id base (i, chunk) s)"
proof -
  have a: "chunk_id_of new_id i \<notin> fst ` set (term_frequencies s)"
    using assms keys_set by auto
  show ?thesis
    using assms(2)
    by (simp add: df_ok_def index_chunk_def Let_def update_fresh[OF a] chunks_with_append
        count_get_bump_all counter_keys)
qed

lemma index_chunk_frame:
  "documents (index_chunk new_id base (i, chunk) s) =
     documents s @ [\<lparr>doc_id = chunk_id_of new_id i, content = chunk,
                     metadata = chunk_metadata base new_id i, chunk_index = i\<rparr>]"
  "total_documents (index_chunk new_id base ic s) = total_documents s"
  "session_id (index_chunk new_id base ic s) = session_id s"
  "index_stats (index_chunk new_id base ic s) = index_stats s"
  "avg_doc_length (index_chunk new_id base ic s) = avg_doc_length s"
  by (simp_all add: index_chunk_def Let_def)

lemma index_chunks_inv:
  assumes "keys_ok s" and "tfs_ok s" and "df_ok s"
    and "\<forall>i\<ge>n. chunk_id_of new_id i \<notin> doc_id ` set (documents s)"
  shows "keys_ok (fold (index_chunk new_id base) (enumerate n chunks) s) \<and>
         tfs_ok (fold (index_chunk new_id base) (enumerate n chunks) s) \<and>
         df_ok (fold (index_chunk new_id base) (enumerate n chunks) s) \<and>
         length (documents (fold (index_chunk new_id base) (enumerate n chunks) s)) =
           length (documents s) + length chunks \<and>
         total_documents (fold (index_chunk new_id base) (enumerate n chunks) s) = total_documents s"
  using assms
proof (induction chunks arbitrary: n s)
  case Nil
  then show ?case by simp
next
  case (Cons c cs)
  let ?s1 = "index_chunk new_id base (n, c) s"
  have f: "chunk_id_of new_id n \<notin> doc_id ` set (documents s)"
    using Cons.prems(4) by simp
  have k: "keys_ok ?s1" using Cons.prems(1) f by (rule index_chunk_keys_ok)
  have t: "tfs_ok ?s1" using Cons.prems(1,2) f by (rule index_chunk_tfs_ok)
  have d: "df_ok ?s1" using Cons.prems(1,3) f by (rule index_chunk_df_ok)
  have fr: "\<forall>i\<ge>Suc n. chunk_id_of new_id i \<notin> doc_id ` set (documents ?s1)"
    using Cons.prems(4) by (auto simp: index_chunk_frame chunk_id_of_inj)
  from Cons.IH[OF k t d fr] show ?case
    by (simp add: index_chunk_frame)
qed

lemma fresh_id_chunk:
  assumes "fresh_id new_id s"
  shows "chunk_id_of new_id i \<notin> doc_id ` set (documents s)"
proof
  assume "chunk_id_of new_id i \<in> doc_id ` set (documents s)"
  then obtain d where d: "d \<in> set (documents s)" "doc_id d = chunk_id_of new_id i" by auto
  from assms d(1) have "\<not> prefix (new_id @ ''_'') (doc_id d)"
    by (simp add: fresh_id_def list_all_iff)
  then show False by (simp add: d(2) chunk_id_of_def)
qed

lemma update_avg_doc_length_frame:
  "documents (update_avg_doc_length s) = documents s"
  "term_frequencies (update_avg_doc_length s) = term_frequencies s"
  "document_frequencies (update_avg_doc_length s) = document_frequencies s"
  "doc_lengths (update_avg_doc_length s) = doc_lengths s"
  "total_documents (update_avg_doc_length s) = total_documents s"
  "session_id (update_avg_doc_length s) = session_id s"
  by (simp_all add: update_avg_doc_length_def)

lemma update_avg_doc_length_avg:
  "doc_lengths s \<noteq> [] \<Longrightarrow>
     avg_doc_length (update_avg_doc_length s) =
       real (sum_list (map snd (doc_lengths s))) / real (length (doc_lengths s))"
  by (simp add: update_avg_doc_length_def)

lemma kw_inv_init: "kw_inv (keyword_init sid)"
  by (simp add: kw_inv_def keys_ok_def tfs_ok_def df_ok_def totals_ok_def keyword_init_def
      count_get_def chunks_with_def)

lemma kw_inv_index_document:
  assumes "kw_inv s" and "fresh_id new_id s"
  shows "kw_inv (fst (index_document chunk_size s document md new_id now))"
proof -
  let ?base = "base_metadata (session_id s) new_id now md"
  let ?chunks = "chunk_text chunk_size document"
  let ?s1 = "fold (index_chunk new_id ?base) (enumerate 0 ?chunks) s"
  have fr: "\<forall>i\<ge>0. chunk_id_of new_id i \<notin> doc_id ` set (documents s)"
    using assms(2) by (simp add: fresh_id_chunk)
  have inv: "keys_ok s" "tfs_ok s" "df_ok s" and tot: "total_documents s = length (documents s)"
    using assms(1) by (simp_all add: kw_inv_def totals_ok_def)
  from index_chunks_inv[OF inv fr, of ?base ?chunks]
  have 1: "keys_ok ?s1" "tfs_ok ?s1" "df_ok ?s1"
    "length (documents ?s1) = length (documents s) + length ?chunks"
    "total_documents ?s1 = total_documents s"
    by simp_all
  show ?thesis
    using 1 tot
    by (simp add: index_document_def Let_def kw_inv_def keys_ok_def tfs_ok_def df_ok_def
        totals_ok_def update_avg_doc_length_frame update_avg_doc_length_avg)
qed

lemma delete_filter: "AList.delete k al = filter (\<lambda>e. fst e \<noteq> k) al"
  by (induction al) auto

lemma count_get_Nil: "count_get [] t = 0"
  by (simp add: count_get_def)

lemma count_get_Cons: "count_get ((k, v) # al) t = (if t = k then v else count_get al t)"
  by (simp add: count_get_def)

lemma fold_delete_filter:
  "fold (\<lambda>doc al. AList.delete (doc_id doc) al) ds al = filter (\<lambda>e. fst e \<notin> doc_id ` set ds) al"
proof (induction ds arbitrary: al)
  case Nil
  then show ?case by simp
next
  case (Cons d ds)
  show ?case
    by (simp add: Cons.IH) (auto simp: delete_filter intro!: filter_cong)
qed

lemma session_ids:
  assumes "distinct (map doc_id docs)" and "d \<in> set docs"
  shows "doc_id d \<in> doc_id ` set (filter P docs) \<longleftrightarrow> P d"
proof -
  have "inj_on doc_id (set docs)"
    using assms(1) by (simp add: distinct_map)
  then show ?thesis
    using assms(2) by (auto dest: inj_onD)
qed

lemma keys_filter:
  assumes "map fst al = map doc_id docs" and "distinct (map doc_id docs)"
  shows "map fst (filter (\<lambda>e. fst e \<notin> doc_id ` set (filter P docs)) al) =
         map doc_id (filter (\<lambda>d. \<not> P d) docs)"
proof -
  have "map fst (filter (\<lambda>e. fst e \<notin> doc_id ` set (filter P docs)) al) =
        filter (\<lambda>k. k \<notin> doc_id ` set (filter P docs)) (map fst al)"
    by (simp add: filter_map comp_def)
  also have "\<dots> = map doc_id (filter (\<lambda>d. doc_id d \<notin> doc_id ` set (filter P docs)) docs)"
    by (simp add: assms(1) filter_map comp_def)
  also have "filter (\<lambda>d. doc_id d \<notin> doc_id ` set (filter P docs)) docs = filter (\<lambda>d. \<not> P d) docs"
    by (rule filter_cong) (use session_ids[OF assms(2)] in auto)
  finally show ?thesis .
qed

lemma count_get_recompute_fold:
  assumes "\<forall>e \<in> set tfs. distinct (map fst (snd e))"
  shows "count_get (fold (\<lambda>e df. bump_all (map fst (snd e)) df) tfs df0) t =
         count_get df0 t + chunks_with tfs t"
  using assms
proof (induction tfs arbitrary: df0)
  case Nil
  then show ?case by (simp add: chunks_with_def)
next
  case (Cons e tfs)
  then show ?case
    by (simp add: chunks_with_def count_get_bump_all)
qed

lemma count_get_recompute:
  "\<forall>e \<in> set tfs. distinct (map fst (snd e)) \<Longrightarrow>
     count_get (recompute_document_frequencies tfs) t = chunks_with tfs t"
  by (simp add: recompute_document_frequencies_def count_get_recompute_fold count_get_Nil)

lemma count_get_filter:
  "k \<notin> S \<Longrightarrow> count_get (filter (\<lambda>e. fst e \<notin> S) al) k = count_get al k"
  unfolding count_get_def by (induction al) auto

lemma delete_session_data_fields:
  "documents (fst (delete_session_data s)) = filter (\<lambda>doc. \<not> in_session (session_id s) doc) (documents s)"
  "term_frequencies (fst (delete_session_data s)) =
     filter (\<lambda>e. fst e \<notin> doc_id ` set (filter (in_session (session_id s)) (documents s))) (term_frequencies s)"
  "doc_lengths (fst (delete_session_data s)) =
     filter (\<lambda>e. fst e \<notin> doc_id ` set (filter (in_session (session_id s)) (documents s))) (doc_lengths s)"
  "document_frequencies (fst (delete_session_data s)) =
     recompute_document_frequencies (term_frequencies (fst (delete_session_data s)))"
  "total_documents (fst (delete_session_data s)) = length (documents (fst (delete_session_data s)))"
  "session_id (fst (delete_session_data s)) = session_id s"
  by (simp_all add: delete_session_data_def Let_def fold_delete_filter update_avg_doc_length_frame)

lemma delete_session_data_avg:
  "doc_lengths (fst (delete_session_data s)) \<noteq> [] \<Longrightarrow>
   avg_doc_length (fst (delete_session_data s)) =
     real (sum_list (map snd (doc_lengths (fst (delete_session_data s))))) /
     real (length (doc_lengths (fst (delete_session_data s))))"
  by (simp add: delete_session_data_def Let_def fold_delete_filter update_avg_doc_length_frame
      update_avg_doc_length_avg)

lemma kw_inv_delete_session_data:
  assumes "kw_inv s"
  shows "kw_inv (fst (delete_session_data s))"
proof -
  let ?s' = "fst (delete_session_data s)"
  let ?S = "doc_id ` set (filter (in_session (session_id s)) (documents s))"
  have k: "keys_ok s" and t: "tfs_ok s"
    using assms by (simp_all add: kw_inv_def)
  have keys: "keys_ok ?s'"
    using k by (simp only: keys_ok_def delete_session_data_fields keys_filter) (simp add: distinct_map_filter)
  have tfs: "tfs_ok ?s'"
    unfolding tfs_ok_def
  proof
    fix e assume "e \<in> set (term_frequencies ?s')"
    then have e: "e \<in> set (term_frequencies s)" "fst e \<notin> ?S"
      by (simp_all add: delete_session_data_fields)
    from t e(1) have "distinct (map fst (snd e))" "\<forall>p \<in> set (snd e). 0 < snd p"
      "snd e \<noteq> [] \<longrightarrow> 0 < count_get (doc_lengths s) (fst e)"
      by (simp_all add: tfs_ok_def)
    then show "distinct (map fst (snd e)) \<and> (\<forall>p \<in> set (snd e). 0 < snd p) \<and>
        (snd e \<noteq> [] \<longrightarrow> 0 < count_get (doc_lengths ?s') (fst e))"
      using e(2) by (simp add: delete_session_data_fields count_get_filter)
  qed
  have df: "df_ok ?s'"
    unfolding df_ok_def
  proof
    fix t
    have "\<forall>e \<in> set (term_frequencies ?s'). distinct (map fst (snd e))"
      using tfs by (simp add: tfs_ok_def)
    then show "count_get (document_frequencies ?s') t = chunks_with (term_frequencies ?s') t"
      by (simp only: delete_session_data_fields(4) count_get_recompute)
  qed
  have tot: "totals_ok ?s'"
    by (simp add: totals_ok_def delete_session_data_fields(5) delete_session_data_avg)
  show ?thesis
    using keys tfs df tot by (simp add: kw_inv_def)
qed

lemma reachable_kw_inv: "reachable chunk_size s \<Longrightarrow> kw_inv s"
  by (induction rule: reachable.induct)
    (simp_all add: kw_inv_init kw_inv_index_document kw_inv_delete_session_data)

subsection \<open>Scoring never raises on a reachable state\<close>

lemma term_score_spec: "term_score n df dl avg tf = spec_bm25 n df tf (real dl) avg"
  by (simp add: term_score_def spec_bm25_def idf_def k1_def b_def)

lemma chunks_with_le: "chunks_with tfs t \<le> length tfs"
  by (simp add: chunks_with_def)

lemma count_get_pos_mem: "0 < count_get al k \<Longrightarrow> (k, count_get al k) \<in> set al"
  by (auto simp: count_get_def split: option.splits dest: map_of_SomeD)

lemma kw_inv_avg_pos:
  assumes "kw_inv s" and "0 < count_get (doc_lengths s) did"
  shows "0 < avg_doc_length s"
proof -
  have m: "(did, count_get (doc_lengths s) did) \<in> set (doc_lengths s)"
    using assms(2) by (rule count_get_pos_mem)
  then have ne: "doc_lengths s \<noteq> []" by auto
  from m have "count_get (doc_lengths s) did \<in> set (map snd (doc_lengths s))"
    by force
  then have "count_get (doc_lengths s) did \<le> sum_list (map snd (doc_lengths s))"
    by (intro member_le_sum_list) simp_all
  with assms(2) have "0 < sum_list (map snd (doc_lengths s))" by linarith
  moreover have "avg_doc_length s =
      real (sum_list (map snd (doc_lengths s))) / real (length (doc_lengths s))"
    using assms(1) ne by (simp add: kw_inv_def totals_ok_def)
  ultimately show ?thesis using ne by simp
qed

lemma kw_inv_df_le:
  assumes "kw_inv s"
  shows "count_get (document_frequencies s) t \<le> total_documents s"
proof -
  have "count_get (document_frequencies s) t = chunks_with (term_frequencies s) t"
    using assms by (simp add: kw_inv_def df_ok_def)
  also have "\<dots> \<le> length (term_frequencies s)" by (rule chunks_with_le)
  also have "\<dots> = length (map fst (term_frequencies s))" by simp
  also have "\<dots> = total_documents s"
    using assms by (simp add: kw_inv_def keys_ok_def totals_ok_def)
  finally show ?thesis .
qed

lemma bm25_term_ok:
  assumes "kw_inv s" and "(did, tfs) \<in> set (term_frequencies s)"
  shows "bm25_term s tfs (count_get (doc_lengths s) did) t acc =
         Inr (acc + contribution s tfs (count_get (doc_lengths s) did) t)"
proof (cases "map_of tfs t")
  case None
  then show ?thesis by (simp add: bm25_term_def contribution_def)
next
  case (Some tf)
  let ?df = "count_get (document_frequencies s) t"
  let ?dl = "count_get (doc_lengths s) did"
  have t: "tfs_ok s" using assms(1) by (simp add: kw_inv_def)
  have ne: "tfs \<noteq> []" using Some by auto
  have "(t, tf) \<in> set tfs" using Some by (rule map_of_SomeD)
  with t assms(2) have tf_pos: "0 < tf" by (fastforce simp: tfs_ok_def)
  from t assms(2) ne have "0 < ?dl" by (fastforce simp: tfs_ok_def)
  with assms(1) have avg: "0 < avg_doc_length s" by (rule kw_inv_avg_pos)
  have "?df \<le> total_documents s" using assms(1) by (rule kw_inv_df_le)
  then have "0 < real (total_documents s) - real ?df + 0.5" by simp
  then have arg: "0 < (real (total_documents s) - real ?df + 0.5) / (real ?df + 0.5)"
    by (simp add: divide_pos_pos)
  have "0 \<le> real ?dl / avg_doc_length s" using avg by simp
  then have "0 \<le> k1 * (1 - b + b * (real ?dl / avg_doc_length s))"
    by (simp add: k1_def b_def)
  with tf_pos have den: "0 < real tf + k1 * (1 - b + b * (real ?dl / avg_doc_length s))"
    by linarith
  from arg have arg': "\<not> (real (total_documents s) - real ?df + 0.5) / (real ?df + 0.5) \<le> 0"
    by (simp only: not_le)
  from avg have avg': "avg_doc_length s \<noteq> 0" by simp
  from den have den': "real tf + k1 * (1 - b + b * (real ?dl / avg_doc_length s)) \<noteq> 0" by simp
  show ?thesis
  proof (cases "?df = 0")
    case True
    then show ?thesis
      unfolding bm25_term_def contribution_def Let_def Some option.case
      by (simp only: refl if_True add_0_right)
  next
    case False
    then show ?thesis
      unfolding bm25_term_def contribution_def Let_def Some option.case
      using arg' avg' den' by (simp only: if_False)
  qed

qed

lemma bm25_terms_ok:
  assumes "kw_inv s" and "(did, tfs) \<in> set (term_frequencies s)"
  shows "bm25_terms s tfs (count_get (doc_lengths s) did) ts acc =
         Inr (acc + sum_list (map (contribution s tfs (count_get (doc_lengths s) did)) ts))"
proof (induction ts arbitrary: acc)
  case Nil
  then show ?case by simp
next
  case (Cons t ts)
  show ?case
    by (simp add: bm25_term_ok[OF assms] Cons.IH add.assoc)
qed

lemma calculate_bm25_score_ok:
  assumes "kw_inv s"
  shows "calculate_bm25_score s ts did =
         Inr (sum_list (map (contribution s (tf_of s did) (count_get (doc_lengths s) did)) ts))"
proof (cases "map_of (term_frequencies s) did")
  case None
  have "sum_list (map (contribution s [] (count_get (doc_lengths s) did)) ts) = 0"
    by (induction ts) (simp_all add: contribution_def)
  with None show ?thesis by (simp add: calculate_bm25_score_def tf_of_def)
next
  case (Some tfs)
  then have "(did, tfs) \<in> set (term_frequencies s)" by (rule map_of_SomeD)
  from bm25_terms_ok[OF assms this, of ts 0] Some show ?thesis
    by (simp add: calculate_bm25_score_def tf_of_def)
qed

subsection \<open>The two-sentence scenario, evaluated\<close>

lemma chunk_text_scenario_b:
  "chunk_text 20 ''Python is great. SQL is also great.'' = [''Python is great'', ''SQL is also great'']"
  by code_simp

lemma preprocess_text_examples:
  "preprocess_text ''Python is great'' = [''python'', ''is'', ''great'']"
  "preprocess_text ''SQL is also great'' = [''sql'', ''is'', ''also'', ''great'']"
  "preprocess_text ''Python'' = [''python'']"
  "preprocess_text ''great'' = [''great'']"
  by code_simp+

lemma chunk_id_of_small:
  "chunk_id_of d 0 = d @ ''_0''" "chunk_id_of d (Suc 0) = d @ ''_1''"
  by (simp_all add: chunk_id_of_def str_nat.simps digit_char_def)

lemma scenario_b_state:
  "scenario_b =
     \<lparr>session_id = ''s'',
      index_stats = \<lparr>documents_indexed = 1, chunks_created = 2, last_updated = Some ''t'',
                      strategy = ''KeywordIndexer''\<rparr>,
      documents =
        [\<lparr>doc_id = ''d_0'', content = ''Python is great'',
           metadata = [(''session_id'', PStr ''s''), (''doc_id'', PStr ''d''),
                       (''indexed_at'', PStr ''t''), (''chunk_index'', PInt 0),
                       (''chunk_id'', PStr ''d_0'')],
           chunk_index = 0\<rparr>,
         \<lparr>doc_id = ''d_1'', content = ''SQL is also great'',
           metadata = [(''session_id'', PStr ''s''), (''doc_id'', PStr ''d''),
                       (''indexed_at'', PStr ''t''), (''chunk_index'', PInt 1),
                       (''chunk_id'', PStr ''d_1'')],
           chunk_index = 1\<rparr>],
      term_frequencies =
        [(''d_0'', [(''python'', 1), (''is'', 1), (''great'', 1)]),
         (''d_1'', [(''sql'', 1), (''is'', 1), (''also'', 1), (''great'', 1)])],
      document_frequencies =
        [(''python'', 1), (''is'', 2), (''great'', 2), (''sql'', 1), (''also'', 1)],
      total_documents = 2, avg_doc_length = 7 / 2,
      doc_lengths = [(''d_0'', 3), (''d_1'', 4)]\<rparr>"
  by (simp add: scenario_b_def chunk_text_scenario_b preprocess_text_examples chunk_id_of_small
      index_document_def index_chunk_def keyword_init_def enumerate_eq_zip base_metadata_def
      chunk_metadata_def dict_update_def counter_def bump_all_def count_get_def
      update_avg_doc_length_def update_stats_def fresh_stats_def Let_def)

lemma reachable_scenario_b: "reachable 20 scenario_b"
  unfolding scenario_b_def
  by (rule r_index[OF r_init]) (simp add: fresh_id_def keyword_init_def)

subsection \<open>Document frequencies and the BM25 sum\<close>

lemma tf_of_member:
  assumes "keys_ok s" and "e \<in> set (term_frequencies s)"
  shows "tf_of s (fst e) = snd e"
proof -
  have "distinct (map fst (term_frequencies s))"
    using assms(1) by (simp add: keys_ok_def)
  then have "map_of (term_frequencies s) (fst e) = Some (snd e)"
    using assms(2) by (simp add: map_of_is_SomeI)
  then show ?thesis by (simp add: tf_of_def)
qed

lemma count_get_pos_iff:
  assumes "\<forall>p \<in> set tf. 0 < snd p"
  shows "0 < count_get tf t \<longleftrightarrow> t \<in> fst ` set tf"
proof
  assume "0 < count_get tf t"
  then have "(t, count_get tf t) \<in> set tf" by (rule count_get_pos_mem)
  then show "t \<in> fst ` set tf" by force
next
  assume "t \<in> fst ` set tf"
  then obtain n where n: "map_of tf t = Some n"
    by (metis domD dom_map_of_conv_image_fst)
  then have "(t, n) \<in> set tf" by (rule map_of_SomeD)
  with assms have "0 < n" by force
  with n show "0 < count_get tf t" by (simp add: count_get_def)
qed

lemma chunks_with_documents:
  assumes "keys_ok s" and "tfs_ok s"
  shows "chunks_with (term_frequencies s) t =
         length (filter (\<lambda>d. 0 < count_get (tf_of s (doc_id d)) t) (documents s))"
proof -
  have "filter (\<lambda>e. t \<in> fst ` set (snd e)) (term_frequencies s) =
        filter ((\<lambda>k. 0 < count_get (tf_of s k) t) \<circ> fst) (term_frequencies s)"
  proof (rule filter_cong[OF refl])
    fix e assume e: "e \<in> set (term_frequencies s)"
    then have "\<forall>p \<in> set (snd e). 0 < snd p"
      using assms(2) by (simp add: tfs_ok_def)
    then show "(t \<in> fst ` set (snd e)) = ((\<lambda>k. 0 < count_get (tf_of s k) t) \<circ> fst) e"
      by (simp add: tf_of_member[OF assms(1) e] count_get_pos_iff)
  qed
  then have "chunks_with (term_frequencies s) t =
      length (filter (\<lambda>k. 0 < count_get (tf_of s k) t) (map fst (term_frequencies s)))"
    by (simp add: chunks_with_def filter_map)
  also have "\<dots> = length (filter (\<lambda>k. 0 < count_get (tf_of s k) t) (map doc_id (documents s)))"
    using assms(1) by (simp add: keys_ok_def)
  also have "\<dots> = length (filter (\<lambda>d. 0 < count_get (tf_of s (doc_id d)) t) (documents s))"
    by (simp add: filter_map comp_def)
  finally show ?thesis .
qed

text \<open>
  Claim C6. After every completed \<open>index_document\<close> or \<open>delete_session_data\<close>, that is
  in every reachable state, \<open>document_frequencies[t]\<close> (read with default 0) is the number
  of held chunks whose recorded term frequency for \<open>t\<close> is positive, for every term
  \<open>t\<close>; and \<open>delete_session_data\<close> leaves as document frequencies the full
  recomputation from the surviving term-frequency maps.
\<close>

theorem document_frequency_invariant:
  assumes "reachable chunk_size s"
  shows "count_get (document_frequencies s) t =
           length (filter (\<lambda>d. 0 < count_get (tf_of s (doc_id d)) t) (documents s)) \<and>
         document_frequencies (fst (delete_session_data s)) =
           recompute_document_frequencies (term_frequencies (fst (delete_session_data s)))"
proof -
  have inv: "kw_inv s" using assms by (rule reachable_kw_inv)
  then have "count_get (document_frequencies s) t = chunks_with (term_frequencies s) t"
    by (simp add: kw_inv_def df_ok_def)
  also have "\<dots> = length (filter (\<lambda>d. 0 < count_get (tf_of s (doc_id d)) t) (documents s))"
    using inv by (simp add: kw_inv_def chunks_with_documents)
  finally show ?thesis
    by (simp add: delete_session_data_fields(4))
qed

theorem document_frequency_invariant_witness:
  "reachable 20 scenario_b \<and>
   count_get (document_frequencies scenario_b) ''great'' = 2 \<and>
   length (filter (\<lambda>d. 0 < count_get (tf_of scenario_b (doc_id d)) ''great'') (documents scenario_b)) = 2 \<and>
   document_frequencies (fst (delete_session_data scenario_b)) = []"
proof -
  have df: "count_get (document_frequencies scenario_b) ''great'' = 2"
    by (simp add: scenario_b_state count_get_def)
  from document_frequency_invariant[OF reachable_scenario_b, of "''great''"]
  have 1: "count_get (document_frequencies scenario_b) ''great'' =
           length (filter (\<lambda>d. 0 < count_get (tf_of scenario_b (doc_id d)) ''great'') (documents scenario_b))"
    and 2: "document_frequencies (fst (delete_session_data scenario_b)) =
           recompute_document_frequencies (term_frequencies (fst (delete_session_data scenario_b)))"
    by simp_all
  have 3: "term_frequencies (fst (delete_session_data scenario_b)) = []"
    by (simp add: delete_session_data_fields scenario_b_state in_session_def dict_get_def)
  show ?thesis
    using reachable_scenario_b df 1 2 3 by (simp add: recompute_document_frequencies_def)
qed

text \<open>
  Claim C4. In a reachable state, for a held chunk and any list of query terms, the
  scoring loop returns (it does not raise) the sum over the query terms, in order and with
  repetitions, of the specification's term score for the terms that occur in the chunk and
  have a nonzero document frequency, and of zero for the others; \<open>N\<close> is the number of
  held chunks.
\<close>

theorem bm25_score_formula:
  assumes "reachable chunk_size s" and "d \<in> set (documents s)"
  shows "calculate_bm25_score s query_terms (doc_id d) =
         Inr (sum_list (map (\<lambda>t.
           if t \<in> fst ` set (tf_of s (doc_id d)) \<and> count_get (document_frequencies s) t \<noteq> 0
           then spec_bm25 (length (documents s)) (count_get (document_frequencies s) t)
                  (count_get (tf_of s (doc_id d)) t)
                  (real (count_get (doc_lengths s) (doc_id d))) (avg_doc_length s)
           else 0) query_terms))"
proof -
  have inv: "kw_inv s" using assms(1) by (rule reachable_kw_inv)
  then have n: "total_documents s = length (documents s)"
    by (simp add: kw_inv_def totals_ok_def)
  have c: "contribution s (tf_of s (doc_id d)) (count_get (doc_lengths s) (doc_id d)) t =
        (if t \<in> fst ` set (tf_of s (doc_id d)) \<and> count_get (document_frequencies s) t \<noteq> 0
         then spec_bm25 (length (documents s)) (count_get (document_frequencies s) t)
                (count_get (tf_of s (doc_id d)) t)
                (real (count_get (doc_lengths s) (doc_id d))) (avg_doc_length s)
         else 0)" for t
  proof (cases "map_of (tf_of s (doc_id d)) t")
    case None
    then have "t \<notin> fst ` set (tf_of s (doc_id d))"
      by (simp add: map_of_eq_None_iff)
    with None show ?thesis by (simp add: contribution_def)
  next
    case (Some tf)
    then have "t \<in> fst ` set (tf_of s (doc_id d))"
      by (metis map_of_eq_None_iff option.distinct(1))
    with Some show ?thesis
      by (simp add: contribution_def count_get_def term_score_spec n)
  qed
  have "map (contribution s (tf_of s (doc_id d)) (count_get (doc_lengths s) (doc_id d))) query_terms =
        map (\<lambda>t.
           if t \<in> fst ` set (tf_of s (doc_id d)) \<and> count_get (document_frequencies s) t \<noteq> 0
           then spec_bm25 (length (documents s)) (count_get (document_frequencies s) t)
                  (count_get (tf_of s (doc_id d)) t)
                  (real (count_get (doc_lengths s) (doc_id d))) (avg_doc_length s)
           else 0) query_terms"
    by (rule map_cong[OF refl]) (rule c)
  then show ?thesis
    by (simp only: calculate_bm25_score_ok[OF inv, of query_terms "doc_id d"])
qed

theorem bm25_score_formula_witness:
  "reachable 20 scenario_b \<and>
   \<lparr>doc_id = ''d_0'', content = ''Python is great'',
     metadata = [(''session_id'', PStr ''s''), (''doc_id'', PStr ''d''),
                 (''indexed_at'', PStr ''t''), (''chunk_index'', PInt 0),
                 (''chunk_id'', PStr ''d_0'')],
     chunk_index = 0\<rparr> \<in> set (documents scenario_b) \<and>
   calculate_bm25_score scenario_b [''great'', ''sql''] ''d_0'' = Inr (spec_bm25 2 2 1 3 (7 / 2))"
proof -
  let ?d = "\<lparr>doc_id = ''d_0'', content = ''Python is great'',
     metadata = [(''session_id'', PStr ''s''), (''doc_id'', PStr ''d''),
                 (''indexed_at'', PStr ''t''), (''chunk_index'', PInt 0),
                 (''chunk_id'', PStr ''d_0'')],
     chunk_index = 0\<rparr>"
  have m: "?d \<in> set (documents scenario_b)"
    by (simp add: scenario_b_state)
  have tf: "tf_of scenario_b ''d_0'' = [(''python'', 1), (''is'', 1), (''great'', 1)]"
    by (simp add: scenario_b_state tf_of_def)
  have vals: "length (documents scenario_b) = 2"
    "count_get (document_frequencies scenario_b) ''great'' = 2"
    "count_get (document_frequencies scenario_b) ''sql'' = 1"
    "count_get (doc_lengths scenario_b) ''d_0'' = 3"
    "avg_doc_length scenario_b = 7 / 2"
    by (simp_all add: scenario_b_state count_get_def)
  have d: "doc_id ?d = ''d_0''" by simp
  from bm25_score_formula[OF reachable_scenario_b m, of "[''great'', ''sql'']"]
  have "calculate_bm25_score scenario_b [''great'', ''sql''] ''d_0'' =
        Inr (spec_bm25 2 2 1 3 (7 / 2))"
    by (simp add: d tf vals count_get_Cons count_get_Nil)
  with reachable_scenario_b m show ?thesis by simp
qed

subsection \<open>Search, the two-sentence scenario and monotonicity\<close>

lemma calculate_bm25_score_value:
  "kw_inv s \<Longrightarrow> calculate_bm25_score s ts did = Inr (bm25_value s ts did)"
  by (simp add: calculate_bm25_score_ok bm25_value_def)

lemma score_documents_ok:
  assumes "kw_inv s"
  shows "score_documents s ts f docs =
         Inr (filter (\<lambda>p. 0 < snd p)
                (map (\<lambda>d. (d, bm25_value s ts (doc_id d)))
                   (filter (\<lambda>d. in_session (session_id s) d \<and> passes_filters f d) docs)))"
  by (induction docs) (simp_all add: calculate_bm25_score_value[OF assms])

lemma sort_desc_set: "set (sort_desc f xs) = set xs"
  by (simp add: sort_desc_def)

lemma sort_desc_sorted: "sorted_wrt (\<lambda>x y. f y \<le> f x) (sort_desc f xs)"
proof -
  have "sorted (map (\<lambda>x. - f x) (sort_key (\<lambda>x. - f x) xs))"
    by (rule sorted_sort_key)
  then show ?thesis
    by (simp add: sort_desc_def sorted_wrt_map)
qed

lemma sort_desc_stable: "filter (\<lambda>x. f x = v) (sort_desc f xs) = filter (\<lambda>x. f x = v) xs"
proof -
  have "filter (\<lambda>x. - f x = - v) (sort_key (\<lambda>x. - f x) xs) = filter (\<lambda>x. - f x = - v) xs"
    by (rule sort_key_stable)
  then show ?thesis by (simp add: sort_desc_def)
qed

lemma ties_keep_order:
  assumes "subseq (map fst scores) docs"
  shows "subseq (map fst (filter (\<lambda>p. snd p = v) (take n (sort_desc snd scores)))) docs"
proof -
  have "subseq (take n (sort_desc snd scores)) (sort_desc snd scores)"
    by (rule prefix_imp_subseq) (rule take_is_prefix)
  then have "subseq (filter (\<lambda>p. snd p = v) (take n (sort_desc snd scores)))
                    (filter (\<lambda>p. snd p = v) (sort_desc snd scores))"
    by (rule subseq_filter)
  then have "subseq (filter (\<lambda>p. snd p = v) (take n (sort_desc snd scores)))
                    (filter (\<lambda>p. snd p = v) scores)"
    by (simp only: sort_desc_stable)
  moreover have "subseq (filter (\<lambda>p. snd p = v) scores) scores"
    by simp
  ultimately have "subseq (filter (\<lambda>p. snd p = v) (take n (sort_desc snd scores))) scores"
    by (rule subseq_order.trans)
  then have "subseq (map fst (filter (\<lambda>p. snd p = v) (take n (sort_desc snd scores)))) (map fst scores)"
    by (rule subseq_map)
  then show ?thesis using assms by (rule subseq_order.trans)
qed

text \<open>
  Claim C5. In a reachable state, for every query, every \<open>top_k > 0\<close> and every filters
  map, \<open>search\<close> returns (it does not raise) the conversion of a list \<open>ds\<close> of scored
  chunks of at most \<open>top_k\<close> entries; each entry is a held chunk that passes the session
  check and every metadata-equality filter, paired with its BM25 score, which is strictly
  positive; the scores descend; and the chunks of any one score stand in ingestion order
  (they form a subsequence of \<open>documents\<close>).
\<close>

theorem search_ranked_results:
  assumes "reachable chunk_size s" and "0 < top_k"
  shows "\<exists>ds. ranked s query top_k filters = Inr ds \<and>
           search s query top_k filters = Inr (map to_result ds) \<and>
           length ds \<le> nat top_k \<and>
           list_all (\<lambda>p. fst p \<in> set (documents s) \<and> in_session (session_id s) (fst p) \<and>
                        passes_filters filters (fst p) \<and>
                        calculate_bm25_score s (preprocess_text query) (doc_id (fst p)) = Inr (snd p) \<and>
                        0 < snd p) ds \<and>
           sorted_wrt (\<lambda>x y. snd y \<le> snd x) ds \<and>
           (\<forall>v. subseq (map fst (filter (\<lambda>p. snd p = v) ds)) (documents s))"
proof -
  have inv: "kw_inv s" using assms(1) by (rule reachable_kw_inv)
  let ?ts = "preprocess_text query"
  let ?scores = "filter (\<lambda>p. 0 < snd p)
                (map (\<lambda>d. (d, bm25_value s ?ts (doc_id d)))
                   (filter (\<lambda>d. in_session (session_id s) d \<and> passes_filters filters d) (documents s)))"
  let ?ds = "if documents s = [] \<or> ?ts = [] then [] else take (nat top_k) (sort_desc snd ?scores)"
  have r: "ranked s query top_k filters = Inr ?ds"
    using assms(2) by (simp add: ranked_def score_documents_ok[OF inv] slice_to_def)
  have sub: "subseq (map fst ?scores) (documents s)"
  proof -
    have "map fst ?scores =
          filter (\<lambda>d. 0 < bm25_value s ?ts (doc_id d))
            (filter (\<lambda>d. in_session (session_id s) d \<and> passes_filters filters d) (documents s))"
      by (simp add: filter_map comp_def)
    then show ?thesis by simp
  qed
  have props: "list_all (\<lambda>p. fst p \<in> set (documents s) \<and> in_session (session_id s) (fst p) \<and>
                        passes_filters filters (fst p) \<and>
                        calculate_bm25_score s ?ts (doc_id (fst p)) = Inr (snd p) \<and>
                        0 < snd p) ?ds"
    by (auto simp: list_all_iff sort_desc_set calculate_bm25_score_value[OF inv] dest!: in_set_takeD)
  have srt: "sorted_wrt (\<lambda>x y. snd y \<le> snd x) ?ds"
    by (simp add: sort_desc_sorted)
  have ties: "subseq (map fst (filter (\<lambda>p. snd p = v) ?ds)) (documents s)" for v
    using ties_keep_order[OF sub] by simp
  have len: "length ?ds \<le> nat top_k" by simp
  show ?thesis
    using r props srt ties len by (intro exI[of _ ?ds]) (simp add: search_def)
qed

lemma split_two_sentences:
  "split_sentences False [] ''Python is great. SQL is also great.'' =
     [''Python is great'', '' SQL is also great'', '''']"
  by code_simp

lemma strip_examples:
  "strip ''Python is great'' = ''Python is great''"
  "strip '' SQL is also great'' = ''SQL is also great''"
  "strip '''' = ''''"
  by code_simp+

lemma chunk_text_two_sentences:
  assumes "chunk_size \<le> 32"
  shows "chunk_text chunk_size ''Python is great. SQL is also great.'' =
         [''Python is great'', ''SQL is also great'']"
  using assms
  by (simp add: chunk_text_def split_two_sentences chunk_step_def strip_examples Let_def)

lemma two_sentence_state:
  assumes "chunk_size \<le> 32"
  shows "fst (index_document chunk_size (keyword_init sid) ''Python is great. SQL is also great.'' None new_id now) =
     \<lparr>session_id = sid,
      index_stats = \<lparr>documents_indexed = 1, chunks_created = 2, last_updated = Some now,
                      strategy = ''KeywordIndexer''\<rparr>,
      documents =
        [\<lparr>doc_id = new_id @ ''_0'', content = ''Python is great'',
           metadata = [(''session_id'', PStr sid), (''doc_id'', PStr new_id),
                       (''indexed_at'', PStr now), (''chunk_index'', PInt 0),
                       (''chunk_id'', PStr (new_id @ ''_0''))],
           chunk_index = 0\<rparr>,
         \<lparr>doc_id = new_id @ ''_1'', content = ''SQL is also great'',
           metadata = [(''session_id'', PStr sid), (''doc_id'', PStr new_id),
                       (''indexed_at'', PStr now), (''chunk_index'', PInt 1),
                       (''chunk_id'', PStr (new_id @ ''_1''))],
           chunk_index = 1\<rparr>],
      term_frequencies =
        [(new_id @ ''_0'', [(''python'', 1), (''is'', 1), (''great'', 1)]),
         (new_id @ ''_1'', [(''sql'', 1), (''is'', 1), (''also'', 1), (''great'', 1)])],
      document_frequencies =
        [(''python'', 1), (''is'', 2), (''great'', 2), (''sql'', 1), (''also'', 1)],
      total_documents = 2, avg_doc_length = 7 / 2,
      doc_lengths = [(new_id @ ''_0'', 3), (new_id @ ''_1'', 4)]\<rparr>"
  by (simp add: chunk_text_two_sentences[OF assms] preprocess_text_examples chunk_id_of_small
      index_document_def index_chunk_def keyword_init_def enumerate_eq_zip base_metadata_def
      chunk_metadata_def dict_update_def counter_def bump_all_def count_get_def
      update_avg_doc_length_def update_stats_def fresh_stats_def Let_def)

lemma two_sentence_scores:
  assumes "chunk_size \<le> 32"
  shows "calculate_bm25_score
           (fst (index_document chunk_size (keyword_init sid) ''Python is great. SQL is also great.'' None new_id now))
           [''python''] (new_id @ ''_0'') = Inr 0"
    and "calculate_bm25_score
           (fst (index_document chunk_size (keyword_init sid) ''Python is great. SQL is also great.'' None new_id now))
           [''python''] (new_id @ ''_1'') = Inr 0"
  unfolding two_sentence_state[OF assms]
  by (simp_all add: calculate_bm25_score_def bm25_term_def term_score_def idf_def k1_def b_def
      count_get_def Let_def)

lemma search_two_sentences:
  assumes "chunk_size \<le> 32"
  shows "search
           (fst (index_document chunk_size (keyword_init sid) ''Python is great. SQL is also great.'' None new_id now))
           ''Python'' top_k filters = Inr []"
proof -
  let ?s = "fst (index_document chunk_size (keyword_init sid) ''Python is great. SQL is also great.'' None new_id now)"
  have docs: "map doc_id (documents ?s) = [new_id @ ''_0'', new_id @ ''_1'']"
    by (simp add: two_sentence_state[OF assms])
  then have d: "documents ?s \<noteq> []" by auto
  have "score_documents ?s [''python''] filters ds = Inr []"
    if "set (map doc_id ds) \<subseteq> {new_id @ ''_0'', new_id @ ''_1''}" for ds
    using that
  proof (induction ds)
    case Nil
    then show ?case by simp
  next
    case (Cons a ds)
    then have "doc_id a = new_id @ ''_0'' \<or> doc_id a = new_id @ ''_1''" by auto
    then have "calculate_bm25_score ?s [''python''] (doc_id a) = Inr 0"
      using two_sentence_scores[OF assms] by auto
    with Cons show ?case by simp
  qed
  from this[of "documents ?s"] docs
  have "score_documents ?s [''python''] filters (documents ?s) = Inr []" by simp
  with d show ?thesis
    by (simp add: search_def ranked_def preprocess_text_examples slice_to_def sort_desc_def)
qed

text \<open>
  Claim C7 as stated fails: with a chunk size of 20 the two sentences make two chunks, and
  \<open>search("Python")\<close> returns the empty list, so the chunk containing "Python" is not
  ranked at all.
\<close>

theorem two_sentence_ranking_counterexample:
  "search (fst (index_document 20 (keyword_init ''s'') ''Python is great. SQL is also great.'' None ''d'' ''t''))
     ''Python'' 5 None = Inr [] \<and>
   \<not> ranked_above ''Python is great'' ''SQL is also great'' []"
  by (simp add: search_two_sentences ranked_above_def)

text \<open>
  Claim C7, amended. For every chunk size of at most 32 the text
  "Python is great. SQL is also great." is split into the two chunks "Python is great" and
  "SQL is also great", and \<open>search("Python")\<close> returns the empty list for every
  \<open>top_k\<close> and filters map: the term occurs in one of two chunks, so its inverse
  document frequency is \<open>ln (1.5 / 1.5) = 0\<close>, both chunks score exactly 0, and a score
  that is not strictly positive is excluded.
\<close>

theorem two_sentence_search_empty:
  assumes "chunk_size \<le> 32"
  shows "chunk_text chunk_size ''Python is great. SQL is also great.'' =
           [''Python is great'', ''SQL is also great''] \<and>
         search
           (fst (index_document chunk_size (keyword_init sid) ''Python is great. SQL is also great.'' None new_id now))
           ''Python'' top_k filters = Inr [] \<and>
         calculate_bm25_score
           (fst (index_document chunk_size (keyword_init sid) ''Python is great. SQL is also great.'' None new_id now))
           (preprocess_text ''Python'') (chunk_id_of new_id 0) = Inr 0 \<and>
         calculate_bm25_score
           (fst (index_document chunk_size (keyword_init sid) ''Python is great. SQL is also great.'' None new_id now))
           (preprocess_text ''Python'') (chunk_id_of new_id 1) = Inr 0"
  using chunk_text_two_sentences[OF assms] search_two_sentences[OF assms] two_sentence_scores[OF assms]
  by (simp add: preprocess_text_examples chunk_id_of_small)

theorem two_sentence_search_empty_witness:
  "(20::int) \<le> 32 \<and>
   chunk_text 20 ''Python is great. SQL is also great.'' = [''Python is great'', ''SQL is also great''] \<and>
   search scenario_b ''Python'' 5 None = Inr []"
  using two_sentence_search_empty[of 20 "''s''" "''d''" "''t''" 5 None]
  by (simp add: scenario_b_def)

lemma tf_ratio_mono:
  fixes k :: real
  assumes "0 < k" and "a \<le> c" and "0 \<le> x"
  shows "real a * x / (real a + k) \<le> real c * x / (real c + k)"
proof -
  have "real a * (real c + k) \<le> real c * (real a + k)"
    using assms by (simp add: algebra_simps mult_right_mono)
  then have "real a / (real a + k) \<le> real c / (real c + k)"
    using assms(1) by (simp add: frac_le_eq divide_le_0_iff add_pos_nonneg add_nonneg_pos algebra_simps)
  then have "x * (real a / (real a + k)) \<le> x * (real c / (real c + k))"
    using assms(3) by (rule mult_left_mono)
  then show ?thesis by (simp add: mult.commute)
qed

lemma length_norm_pos:
  assumes "0 < avg"
  shows "0 < k1 * (1 - b + b * (real dl / avg))"
proof -
  have "0 \<le> real dl / avg" using assms by simp
  then show ?thesis by (simp add: k1_def b_def add_pos_nonneg)
qed

lemma idf_nonneg: "2 * df \<le> n \<Longrightarrow> 0 \<le> idf n df"
  unfolding idf_def by (rule ln_ge_zero) (simp add: field_simps)

lemma idf_neg: "df \<le> n \<Longrightarrow> n < 2 * df \<Longrightarrow> idf n df < 0"
  unfolding idf_def by (rule ln_less_zero) (simp_all add: field_simps)

text \<open>
  Claim C3, amended. With the document frequency, the chunk count, the chunk length and a
  positive average length fixed, the score contribution of a term is non-decreasing in its
  term frequency when the term occurs in at most half of the chunks (\<open>2 * df \<le> N\<close>,
  where the inverse document frequency is not negative), and non-increasing when it occurs
  in more than half of them (\<open>df \<le> N < 2 * df\<close>, where it is negative).
\<close>

theorem term_score_monotone:
  assumes "0 < avg" and "tf1 \<le> tf2"
  shows "(2 * df \<le> n \<longrightarrow> term_score n df dl avg tf1 \<le> term_score n df dl avg tf2) \<and>
         (df \<le> n \<and> n < 2 * df \<longrightarrow> term_score n df dl avg tf2 \<le> term_score n df dl avg tf1)"
proof -
  let ?k = "k1 * (1 - b + b * (real dl / avg))"
  have k: "0 < ?k" using assms(1) by (rule length_norm_pos)
  have m: "real tf1 * (k1 + 1) / (real tf1 + ?k) \<le> real tf2 * (k1 + 1) / (real tf2 + ?k)"
    using k assms(2) by (rule tf_ratio_mono) (simp add: k1_def)
  show ?thesis
  proof (intro conjI impI)
    assume "2 * df \<le> n"
    then have "0 \<le> idf n df" by (rule idf_nonneg)
    with m show "term_score n df dl avg tf1 \<le> term_score n df dl avg tf2"
      unfolding term_score_def by (rule mult_left_mono)
  next
    assume "df \<le> n \<and> n < 2 * df"
    then have "idf n df \<le> 0" using idf_neg[of df n] by simp
    with m show "term_score n df dl avg tf2 \<le> term_score n df dl avg tf1"
      unfolding term_score_def by (rule mult_left_mono_neg)
  qed
qed

lemma one_a_state:
  "one_a =
     \<lparr>session_id = ''s'',
      index_stats = \<lparr>documents_indexed = 1, chunks_created = 1, last_updated = Some ''t'',
                      strategy = ''KeywordIndexer''\<rparr>,
      documents =
        [\<lparr>doc_id = ''d_0'', content = ''a b'',
           metadata = [(''session_id'', PStr ''s''), (''doc_id'', PStr ''d''),
                       (''indexed_at'', PStr ''t''), (''chunk_index'', PInt 0),
                       (''chunk_id'', PStr ''d_0'')],
           chunk_index = 0\<rparr>],
      term_frequencies = [(''d_0'', [(''a'', 1), (''b'', 1)])],
      document_frequencies = [(''a'', 1), (''b'', 1)],
      total_documents = 1, avg_doc_length = 2,
      doc_lengths = [(''d_0'', 2)]\<rparr>"
proof -
  have c: "chunk_text 800 ''a b'' = [''a b'']" by code_simp
  have p: "preprocess_text ''a b'' = [''a'', ''b'']" by code_simp
  show ?thesis
    by (simp add: one_a_def c p chunk_id_of_small
      index_document_def index_chunk_def keyword_init_def enumerate_eq_zip base_metadata_def
      chunk_metadata_def dict_update_def counter_def bump_all_def count_get_def
      update_avg_doc_length_def update_stats_def fresh_stats_def Let_def)
qed

lemma two_a_state:
  "two_a =
     \<lparr>session_id = ''s'',
      index_stats = \<lparr>documents_indexed = 1, chunks_created = 1, last_updated = Some ''t'',
                      strategy = ''KeywordIndexer''\<rparr>,
      documents =
        [\<lparr>doc_id = ''d_0'', content = ''a a'',
           metadata = [(''session_id'', PStr ''s''), (''doc_id'', PStr ''d''),
                       (''indexed_at'', PStr ''t''), (''chunk_index'', PInt 0),
                       (''chunk_id'', PStr ''d_0'')],
           chunk_index = 0\<rparr>],
      term_frequencies = [(''d_0'', [(''a'', 2)])],
      document_frequencies = [(''a'', 1)],
      total_documents = 1, avg_doc_length = 2,
      doc_lengths = [(''d_0'', 2)]\<rparr>"
proof -
  have c: "chunk_text 800 ''a a'' = [''a a'']" by code_simp
  have p: "preprocess_text ''a a'' = [''a'', ''a'']" by code_simp
  show ?thesis
    by (simp add: two_a_def c p chunk_id_of_small
      index_document_def index_chunk_def keyword_init_def enumerate_eq_zip base_metadata_def
      chunk_metadata_def dict_update_def counter_def bump_all_def count_get_def
      update_avg_doc_length_def update_stats_def fresh_stats_def Let_def)
qed

lemma term_score_1_1: "term_score 1 1 2 2 1 = ln (1 / 3)" "term_score 1 1 2 2 2 = ln (1 / 3) * (10 / 7)"
  by (simp_all add: term_score_def idf_def k1_def b_def)

text \<open>
  Claim C3 as stated fails. The single-chunk indexes of "a b" and of "a a" agree on the
  corpus size 1, the document frequency 1 of the term "a", the chunk length 2 and the
  average length 2; the term frequency of "a" is 1 in the first and 2 in the second, and
  the score of the second is strictly smaller.
\<close>

theorem term_score_monotone_counterexample:
  "calculate_bm25_score one_a [''a''] ''d_0'' = Inr (term_score 1 1 2 2 1) \<and>
   calculate_bm25_score two_a [''a''] ''d_0'' = Inr (term_score 1 1 2 2 2) \<and>
   term_score 1 1 2 2 2 < term_score 1 1 2 2 1"
proof -
  have 1: "calculate_bm25_score one_a [''a''] ''d_0'' = Inr (term_score 1 1 2 2 1)"
    unfolding one_a_state
    by (simp add: calculate_bm25_score_def bm25_term_def count_get_def Let_def k1_def b_def)
  have 2: "calculate_bm25_score two_a [''a''] ''d_0'' = Inr (term_score 1 1 2 2 2)"
    unfolding two_a_state
    by (simp add: calculate_bm25_score_def bm25_term_def count_get_def Let_def k1_def b_def)
  have "ln (1 / 3 :: real) < 0" by simp
  then have "ln (1 / 3 :: real) * (10 / 7) < ln (1 / 3) * 1"
    by (intro mult_strict_left_mono_neg) simp_all
  then have 3: "term_score 1 1 2 2 2 < term_score 1 1 2 2 1"
    by (simp only: term_score_1_1 mult_1_right)
  from 1 2 3 show ?thesis by simp
qed

theorem term_score_monotone_witness:
  "(0::real) < 2 \<and> (1::nat) \<le> 2 \<and> 2 * 1 \<le> (3::nat) \<and>
   term_score 3 1 2 2 1 \<le> term_score 3 1 2 2 2 \<and>
   (1::nat) \<le> 1 \<and> (1::nat) < 2 * 1 \<and>
   term_score 1 1 2 2 2 \<le> term_score 1 1 2 2 1"
  using term_score_monotone[of 2 1 2 1 3 2] term_score_monotone[of 2 1 2 1 1 2]
  by simp

lemma chunk_text_scenario_c:
  "chunk_text 20 ''Python is great. SQL is also great. Java too.'' =
     [''Python is great'', ''SQL is also great'', ''Java too'']"
  by code_simp

lemma preprocess_java: "preprocess_text ''Java too'' = [''java'', ''too'']"
  by code_simp

lemma chunk_id_of_2: "chunk_id_of d (Suc (Suc 0)) = d @ ''_2''"
  by (simp add: chunk_id_of_def str_nat.simps digit_char_def)

lemma scenario_c_state:
  "scenario_c =
     \<lparr>session_id = ''s'',
      index_stats = \<lparr>documents_indexed = 1, chunks_created = 3, last_updated = Some ''t'',
                      strategy = ''KeywordIndexer''\<rparr>,
      documents =
        [\<lparr>doc_id = ''d_0'', content = ''Python is great'',
           metadata = [(''session_id'', PStr ''s''), (''doc_id'', PStr ''d''),
                       (''indexed_at'', PStr ''t''), (''chunk_index'', PInt 0),
                       (''chunk_id'', PStr ''d_0'')],
           chunk_index = 0\<rparr>,
         \<lparr>doc_id = ''d_1'', content = ''SQL is also great'',
           metadata = [(''session_id'', PStr ''s''), (''doc_id'', PStr ''d''),
                       (''indexed_at'', PStr ''t''), (''chunk_index'', PInt 1),
                       (''chunk_id'', PStr ''d_1'')],
           chunk_index = 1\<rparr>,
         \<lparr>doc_id = ''d_2'', content = ''Java too'',
           metadata = [(''session_id'', PStr ''s''), (''doc_id'', PStr ''d''),
                       (''indexed_at'', PStr ''t''), (''chunk_index'', PInt 2),
                       (''chunk_id'', PStr ''d_2'')],
           chunk_index = 2\<rparr>],
      term_frequencies =
        [(''d_0'', [(''python'', 1), (''is'', 1), (''great'', 1)]),
         (''d_1'', [(''sql'', 1), (''is'', 1), (''also'', 1), (''great'', 1)]),
         (''d_2'', [(''java'', 1), (''too'', 1)])],
      document_frequencies =
        [(''python'', 1), (''is'', 2), (''great'', 2), (''sql'', 1), (''also'', 1),
         (''java'', 1), (''too'', 1)],
      total_documents = 3, avg_doc_length = 3,
      doc_lengths = [(''d_0'', 3), (''d_1'', 4), (''d_2'', 2)]\<rparr>"
  by (simp add: scenario_c_def chunk_text_scenario_c preprocess_text_examples preprocess_java
      chunk_id_of_small chunk_id_of_2 numeral_2_eq_2
      index_document_def index_chunk_def keyword_init_def enumerate_eq_zip base_metadata_def
      chunk_metadata_def dict_update_def counter_def bump_all_def count_get_def
      update_avg_doc_length_def update_stats_def fresh_stats_def Let_def)

lemma reachable_scenario_c: "reachable 20 scenario_c"
  unfolding scenario_c_def
  by (rule r_index[OF r_init]) (simp add: fresh_id_def keyword_init_def)

lemma scenario_c_search:
  "search scenario_c ''Python'' 5 None =
     Inr [\<lparr>sr_content = ''Python is great'', sr_score = ln (5 / 3),
           sr_metadata = [(''session_id'', PStr ''s''), (''doc_id'', PStr ''d''),
                          (''indexed_at'', PStr ''t''), (''chunk_index'', PInt 0),
                          (''chunk_id'', PStr ''d_0'')],
           sr_doc_id = PStr ''d'', sr_chunk_index = PInt 0\<rparr>]"
  unfolding scenario_c_state
  by (simp add: search_def ranked_def preprocess_text_examples calculate_bm25_score_def
      bm25_term_def term_score_def idf_def k1_def b_def count_get_def Let_def in_session_def
      passes_filters_def dict_get_def dict_get_default_def slice_to_def sort_desc_def to_result_def)

theorem search_ranked_results_witness:
  "reachable 20 scenario_c \<and> (0::int) < 5 \<and>
   (\<exists>ds. ranked scenario_c ''Python'' 5 None = Inr ds \<and>
      search scenario_c ''Python'' 5 None = Inr (map to_result ds) \<and>
      length ds \<le> nat 5 \<and>
      sorted_wrt (\<lambda>x y. snd y \<le> snd x) ds) \<and>
   search scenario_c ''Python'' 5 None =
     Inr [\<lparr>sr_content = ''Python is great'', sr_score = ln (5 / 3),
           sr_metadata = [(''session_id'', PStr ''s''), (''doc_id'', PStr ''d''),
                          (''indexed_at'', PStr ''t''), (''chunk_index'', PInt 0),
                          (''chunk_id'', PStr ''d_0'')],
           sr_doc_id = PStr ''d'', sr_chunk_index = PInt 0\<rparr>]"
proof -
  have k: "(0::int) < 5" by simp
  from search_ranked_results[OF reachable_scenario_c k, of "''Python''" None]
  have ex: "\<exists>ds. ranked scenario_c ''Python'' 5 None = Inr ds \<and>
      search scenario_c ''Python'' 5 None = Inr (map to_result ds) \<and>
      length ds \<le> nat 5 \<and>
      sorted_wrt (\<lambda>x y. snd y \<le> snd x) ds"
    by blast
  show ?thesis
  proof (intro conjI)
    show "reachable 20 scenario_c" by (rule reachable_scenario_c)
    show "(0::int) < 5" by simp
    show "\<exists>ds. ranked scenario_c ''Python'' 5 None = Inr ds \<and>
      search scenario_c ''Python'' 5 None = Inr (map to_result ds) \<and>
      length ds \<le> nat 5 \<and>
      sorted_wrt (\<lambda>x y. snd y \<le> snd x) ds" by (rule ex)
    show "search scenario_c ''Python'' 5 None =
     Inr [\<lparr>sr_content = ''Python is great'', sr_score = ln (5 / 3),
           sr_metadata = [(''session_id'', PStr ''s''), (''doc_id'', PStr ''d''),
                          (''indexed_at'', PStr ''t''), (''chunk_index'', PInt 0),
                          (''chunk_id'', PStr ''d_0'')],
           sr_doc_id = PStr ''d'', sr_chunk_index = PInt 0\<rparr>]"
      by (rule scenario_c_search)
  qed
qed

section \<open>Properties of the semantic indexers and the factory\<close>

subsection \<open>Search after deletion\<close>

text \<open>
  The keyword indexer empties itself: after \<open>delete_session_data\<close>, from any state,
  every search returns the empty list.
\<close>

lemma keyword_search_after_delete:
  "snd (delete_session_data s) = True \<and>
   search (fst (delete_session_data s)) query top_k filters = Inr []"
proof -
  have "score_documents s' ts filters docs = Inr []"
    if "list_all (\<lambda>d. \<not> in_session (session_id s') d) docs" for s' ts docs
    using that by (induction docs) simp_all
  then have "score_documents (fst (delete_session_data s)) ts filters
               (documents (fst (delete_session_data s))) = Inr []" for ts
    by (simp add: delete_session_data_fields list_all_iff)
  then show ?thesis
    by (simp add: search_def ranked_def slice_to_def sort_desc_def delete_session_data_def Let_def)
qed

text \<open>
  The semantic indexers leave the vector store as it is, so for every adapter a search
  after \<open>delete_session_data\<close> asks the adapter the same question of the same store and
  returns what it returned before.
\<close>

lemma semantic_search_after_delete:
  "snd (semantic_delete_session_data s) = True \<and>
   semantic_search A (fst (semantic_delete_session_data s)) query top_k filters =
     semantic_search A s query top_k filters"
  by (simp add: semantic_delete_session_data_def semantic_search_def)

lemma enhanced_vector_search_after_delete:
  "snd (enhanced_delete_session_data s) = True \<and>
   vector_search A (fst (enhanced_delete_session_data s)) query top_k filters =
     vector_search A s query top_k filters \<and>
   contact_search A (fst (enhanced_delete_session_data s)) query filters =
     contact_search A s query filters"
  by (simp add: enhanced_delete_session_data_def vector_search_def contact_search_def)

lemma hello_indexed_state:
  "hello_indexed =
     \<lparr>session_id = ''s'',
      index_stats = \<lparr>documents_indexed = 1, chunks_created = 1, last_updated = Some ''t'',
                      strategy = ''SemanticIndexer''\<rparr>,
      documents =
        [\<lparr>doc_id = ''d'', content = ''hello'',
           metadata = [(''session_id'', PStr ''s''), (''doc_id'', PStr ''d''),
                       (''indexed_at'', PStr ''t''), (''chunk_index'', PInt 0),
                       (''chunk_id'', PStr ''d_0'')],
           chunk_index = 0\<rparr>],
      vector_store =
        [(''hello'', [(''session_id'', PStr ''s''), (''doc_id'', PStr ''d''),
                      (''indexed_at'', PStr ''t''), (''chunk_index'', PInt 0),
                      (''chunk_id'', PStr ''d_0'')])]\<rparr>"
  by (simp add: hello_indexed_def semantic_index_document_def semantic_init_def list_adapter_def
      base_metadata_def chunk_metadata_def chunk_id_of_small dict_update_def enumerate_eq_zip
      update_stats_def fresh_stats_def Let_def)

text \<open>
  Claim C1, on the code. A semantic indexer of session "s" ingests the document "hello"
  over the list store; \<open>delete_session_data\<close> returns \<open>True\<close>, empties \<open>documents\<close>
  and resets the statistics, and the following \<open>search("hello", 5)\<close> still returns the
  chunk "hello": the claimed empty result does not hold for the semantic indexers.
\<close>

theorem semantic_search_survives_delete:
  "semantic_delete_session_data hello_indexed =
     (hello_indexed\<lparr>documents := [], index_stats := fresh_stats ''SemanticIndexer''\<rparr>, True) \<and>
   semantic_search list_adapter (fst (semantic_delete_session_data hello_indexed)) ''hello'' 5 None =
     [\<lparr>sr_content = ''hello'', sr_score = 1,
       sr_metadata = [(''session_id'', PStr ''s''), (''doc_id'', PStr ''d''),
                      (''indexed_at'', PStr ''t''), (''chunk_index'', PInt 0),
                      (''chunk_id'', PStr ''d_0'')],
       sr_doc_id = PStr ''d'', sr_chunk_index = PInt 0\<rparr>]"
proof -
  have 1: "semantic_delete_session_data hello_indexed =
     (hello_indexed\<lparr>documents := [], index_stats := fresh_stats ''SemanticIndexer''\<rparr>, True)"
    by (simp add: semantic_delete_session_data_def hello_indexed_state in_session_def dict_get_def)
  have 2: "semantic_search list_adapter hello_indexed ''hello'' 5 None =
     [\<lparr>sr_content = ''hello'', sr_score = 1,
       sr_metadata = [(''session_id'', PStr ''s''), (''doc_id'', PStr ''d''),
                      (''indexed_at'', PStr ''t''), (''chunk_index'', PInt 0),
                      (''chunk_id'', PStr ''d_0'')],
       sr_doc_id = PStr ''d'', sr_chunk_index = PInt 0\<rparr>]"
    by (simp add: hello_indexed_state semantic_search_def list_adapter_def search_filter_def
        dict_update_def matches_def dict_get_def dict_get_default_def slice_to_def vector_result_def)
  show ?thesis
    using 1 2 semantic_search_after_delete[of hello_indexed list_adapter "''hello''" 5 None]
    by simp
qed

subsection \<open>The filter handed to the adapter\<close>

lemma dict_update_absent:
  "k \<notin> fst ` set e \<Longrightarrow> map_of (dict_update d e) k = map_of d k"
  unfolding dict_update_def
  by (induction e arbitrary: d) (auto simp: update_conv')

lemma search_filter_own_session:
  assumes "map_of (case filters of None \<Rightarrow> [] | Some f \<Rightarrow> f) ''session_id'' = None"
  shows "dict_get (search_filter sid filters) ''session_id'' = PStr sid"
proof -
  have "''session_id'' \<notin> fst ` set (case filters of None \<Rightarrow> [] | Some f \<Rightarrow> f)"
    using assms by (simp add: map_of_eq_None_iff)
  then show ?thesis
    by (simp add: search_filter_def dict_get_def dict_update_absent)
qed

text \<open>
  Claim C2, on the code. For the indexer of session "s1" and the caller's filters
  \<open>{"session_id": "other"}\<close>, the filter built for the adapter is
  \<open>{"session_id": "other"}\<close>: the caller's entry has replaced the indexer's own session
  id, which the filter no longer names. (When the caller's filters have no
  \<open>session_id\<close> key the filter does carry the own session id: the lemma before.)
\<close>

theorem search_filter_overridden:
  "search_filter ''s1'' (Some [(''session_id'', PStr ''other'')]) = [(''session_id'', PStr ''other'')] \<and>
   dict_get (search_filter ''s1'' (Some [(''session_id'', PStr ''other'')])) ''session_id'' = PStr ''other''"
  by (simp add: search_filter_def dict_update_def dict_get_def)

subsection \<open>Deduplication in the fused search\<close>

lemma dedup_loop_append:
  "dedup_loop seen (xs @ ys) = dedup_loop seen xs @ dedup_loop (seen \<union> dedup_key ` set xs) ys"
proof (induction xs arbitrary: seen)
  case Nil
  then show ?case by simp
next
  case (Cons x xs)
  show ?case
  proof (cases "dedup_key x \<in> seen")
    case True
    then have "seen \<union> dedup_key ` set (x # xs) = seen \<union> dedup_key ` set xs" by auto
    with True show ?thesis by (simp add: Cons.IH)
  next
    case False
    have "insert (dedup_key x) seen \<union> dedup_key ` set xs = seen \<union> dedup_key ` set (x # xs)"
      by auto
    with False show ?thesis by (simp add: Cons.IH)
  qed
qed

lemma deduplicate_results_snoc:
  "deduplicate_results (xs @ [r]) =
     (if dedup_key r \<in> dedup_key ` set xs then deduplicate_results xs
      else deduplicate_results xs @ [r])"
  by (simp add: deduplicate_results_def dedup_loop_append)

lemma deduplicate_results_later_dropped:
  assumes "dedup_key r1 = dedup_key r2"
  shows "deduplicate_results (xs @ r1 # ys @ r2 # zs) = deduplicate_results (xs @ r1 # ys @ zs)"
proof -
  have k: "dedup_key r2 \<in> dedup_key ` set (xs @ r1 # ys)"
    using assms by auto
  have "deduplicate_results ((xs @ r1 # ys) @ r2 # zs) =
        dedup_loop {} (xs @ r1 # ys) @ dedup_loop (dedup_key ` set (xs @ r1 # ys)) (r2 # zs)"
    unfolding deduplicate_results_def by (subst dedup_loop_append) simp
  also have "\<dots> = dedup_loop {} (xs @ r1 # ys) @ dedup_loop (dedup_key ` set (xs @ r1 # ys)) zs"
    using k by simp
  also have "\<dots> = deduplicate_results ((xs @ r1 # ys) @ zs)"
    unfolding deduplicate_results_def by (subst dedup_loop_append) simp
  finally show ?thesis by simp
qed

lemma dedup_key_same_prefix:
  "take 100 (sr_content r1) = take 100 (sr_content r2) \<Longrightarrow> dedup_key r1 = dedup_key r2"
  by (simp add: dedup_key_def)

text \<open>
  Claim C8, amended. The deduplication key of a candidate is the first 100 characters of
  its content with surrounding white space stripped. Candidates with byte-identical first
  100 characters have the same key; of two candidates with the same key the later one is
  dropped (the result is the same without it); a candidate is kept exactly when no earlier
  candidate of the merge order has its key; and when the vector search returns,
  \<open>search\<close> is the truncation to \<open>top_k\<close> of the stable descending sort of the
  deduplicated merge, so deduplication comes before sorting and truncation.
\<close>

theorem deduplicate_first_seen:
  "(take 100 (sr_content r1) = take 100 (sr_content r2) \<longrightarrow> dedup_key r1 = dedup_key r2) \<and>
   (dedup_key r1 = dedup_key r2 \<longrightarrow>
      deduplicate_results (xs @ r1 # ys @ r2 # zs) = deduplicate_results (xs @ r1 # ys @ zs)) \<and>
   deduplicate_results (xs @ [r]) =
     (if dedup_key r \<in> dedup_key ` set xs then deduplicate_results xs
      else deduplicate_results xs @ [r]) \<and>
   (vector_search A s query top_k filters = Inr vector_results \<longrightarrow>
      enhanced_search A s query top_k filters =
        slice_to top_k (sort_desc sr_score
          (deduplicate_results (merged_results A s query filters vector_results))))"
  using deduplicate_results_later_dropped[of r1 r2 xs ys zs] dedup_key_same_prefix[of r1 r2]
  by (simp add: deduplicate_results_snoc enhanced_search_def)

lemma strip_abc: "strip ''  abc'' = ''abc''" "strip ''abc'' = ''abc''"
  by code_simp+

text \<open>
  Claim C8 as stated fails. Of the candidates "  abc" (score 3), "abc" (score 2) and "abc"
  (score 1), in this merge order, the last two have byte-identical first 100 characters
  and the first has different ones; the first-encountered of the identical pair does not
  survive: only "  abc" does, because its stripped prefix is the same key.
\<close>

theorem deduplicate_first_seen_counterexample:
  "take 100 (sr_content (cand ''abc'' 2)) = take 100 (sr_content (cand ''abc'' 1)) \<and>
   take 100 (sr_content (cand ''  abc'' 3)) \<noteq> take 100 (sr_content (cand ''abc'' 2)) \<and>
   deduplicate_results [cand ''  abc'' 3, cand ''abc'' 2, cand ''abc'' 1] = [cand ''  abc'' 3]"
  by (simp add: cand_def deduplicate_results_def dedup_key_def strip_abc)

theorem deduplicate_first_seen_witness:
  "take 100 (sr_content (cand ''abc'' 2)) = take 100 (sr_content (cand ''abc'' 1)) \<and>
   dedup_key (cand ''abc'' 2) = dedup_key (cand ''abc'' 1) \<and>
   deduplicate_results ([] @ cand ''abc'' 2 # [cand ''xyz'' 5] @ cand ''abc'' 1 # []) =
     deduplicate_results ([] @ cand ''abc'' 2 # [cand ''xyz'' 5] @ []) \<and>
   vector_search list_adapter alpha_then_beta ''q'' 1 None =
     Inr [vector_result (\<lparr>page_content = ''alpha'',
            vmetadata = [(''session_id'', PStr ''s''), (''doc_id'', PStr ''d1''),
                         (''indexed_at'', PStr ''t1''), (''chunk_index'', PInt 0),
                         (''chunk_id'', PStr ''d1_0''), (''chunk_type'', PStr ''semantic''),
                         (''chunk_section'', PStr ''general'')]\<rparr>, 1)] \<and>
   enhanced_search list_adapter alpha_then_beta ''q'' 1 None =
     slice_to 1 (sort_desc sr_score (deduplicate_results
       (merged_results list_adapter alpha_then_beta ''q'' None
          [vector_result (\<lparr>page_content = ''alpha'',
            vmetadata = [(''session_id'', PStr ''s''), (''doc_id'', PStr ''d1''),
                         (''indexed_at'', PStr ''t1''), (''chunk_index'', PInt 0),
                         (''chunk_id'', PStr ''d1_0''), (''chunk_type'', PStr ''semantic''),
                         (''chunk_section'', PStr ''general'')]\<rparr>, 1)])))"
proof -
  let ?v = "[vector_result (\<lparr>page_content = ''alpha'',
            vmetadata = [(''session_id'', PStr ''s''), (''doc_id'', PStr ''d1''),
                         (''indexed_at'', PStr ''t1''), (''chunk_index'', PInt 0),
                         (''chunk_id'', PStr ''d1_0''), (''chunk_type'', PStr ''semantic''),
                         (''chunk_section'', PStr ''general'')]\<rparr>, 1)]"
  have p: "take 100 (sr_content (cand ''abc'' 2)) = take 100 (sr_content (cand ''abc'' 1))"
    by (simp add: cand_def)
  have v: "vector_search list_adapter alpha_then_beta ''q'' 1 None = Inr ?v"
    by (simp add: alpha_then_beta_def enhanced_index_document_def enhanced_init_def
        list_adapter_def one_chunk_def base_metadata_def enhanced_chunk_metadata_def
        chunk_metadata_def chunk_id_of_small dict_update_def enumerate_eq_zip update_stats_def
        fresh_stats_def vector_search_def search_filter_def matches_def dict_get_def
        slice_to_def Let_def)
  from deduplicate_first_seen[of "cand ''abc'' 2" "cand ''abc'' 1" "[]" "[cand ''xyz'' 5]" "[]"
      "cand ''abc'' 1" list_adapter alpha_then_beta "''q''" 1 None ?v] p v
  show ?thesis by simp
qed

subsection \<open>The keyword fallback reads the last document only\<close>

lemma enhanced_index_document_full_text:
  "full_text (fst (enhanced_index_document A create_chunks s document md new_id now)) = document"
  by (simp add: enhanced_index_document_def Let_def split: sum.splits)

lemma keyword_hit_absent: "find_str (lower text) term = None \<Longrightarrow> keyword_hit text term = []"
  by (simp add: keyword_hit_def)

text \<open>
  Claim C10. After two calls of \<open>index_document\<close> on an enhanced indexer, whatever the
  adapter answers, the stored full text is the second document; the keyword fallback of a
  later search is computed from the second document alone; a query term that does not
  occur in the (lower-cased) second document yields no fallback result, whether or not it
  occurs in the first; and when no query term occurs in it the fallback is empty.
\<close>

theorem keyword_fallback_latest_document:
  "full_text (fst (enhanced_index_document A create_chunks
       (fst (enhanced_index_document A create_chunks s document1 md1 id1 now1))
       document2 md2 id2 now2)) = document2 \<and>
   keyword_search (fst (enhanced_index_document A create_chunks
       (fst (enhanced_index_document A create_chunks s document1 md1 id1 now1))
       document2 md2 id2 now2)) query filters =
     (if document2 = [] then []
      else concat (map (keyword_hit document2) (split_ws [] (lower query)))) \<and>
   (find_str (lower document2) term = None \<longrightarrow> keyword_hit document2 term = []) \<and>
   (list_all (\<lambda>term. find_str (lower document2) term = None) (split_ws [] (lower query)) \<longrightarrow>
      keyword_search (fst (enhanced_index_document A create_chunks
          (fst (enhanced_index_document A create_chunks s document1 md1 id1 now1))
          document2 md2 id2 now2)) query filters = [])"
proof -
  let ?s2 = "fst (enhanced_index_document A create_chunks
       (fst (enhanced_index_document A create_chunks s document1 md1 id1 now1))
       document2 md2 id2 now2)"
  have ft: "full_text ?s2 = document2"
    by (rule enhanced_index_document_full_text)
  have ks: "keyword_search ?s2 query filters =
     (if document2 = [] then []
      else concat (map (keyword_hit document2) (split_ws [] (lower query))))"
    by (simp add: keyword_search_def ft)
  have none: "keyword_search ?s2 query filters = []"
    if h: "list_all (\<lambda>term. find_str (lower document2) term = None) (split_ws [] (lower query))"
  proof -
    from h have "\<forall>t \<in> set (split_ws [] (lower query)). keyword_hit document2 t = []"
      by (simp add: list_all_iff keyword_hit_absent)
    then have "concat (map (keyword_hit document2) (split_ws [] (lower query))) = []"
      by simp
    then show ?thesis by (simp only: ks if_cancel)
  qed
  show ?thesis
  proof (intro conjI impI)
    show "full_text ?s2 = document2" by (rule ft)
    show "keyword_search ?s2 query filters =
     (if document2 = [] then []
      else concat (map (keyword_hit document2) (split_ws [] (lower query))))" by (rule ks)
    show "keyword_hit document2 term = []" if "find_str (lower document2) term = None"
      using that by (rule keyword_hit_absent)
    show "keyword_search ?s2 query filters = []"
      if "list_all (\<lambda>term. find_str (lower document2) term = None) (split_ws [] (lower query))"
      using that by (rule none)
  qed
qed

lemma find_alpha:
  "split_ws [] (lower ''alpha'') = [''alpha'']"
  "find_str (lower ''alpha'') ''alpha'' = Some 0"
  "find_str (lower ''beta'') ''alpha'' = None"
  by code_simp+

theorem keyword_fallback_latest_document_witness:
  "find_str (lower ''alpha'') ''alpha'' = Some 0 \<and>
   find_str (lower ''beta'') ''alpha'' = None \<and>
   list_all (\<lambda>term. find_str (lower ''beta'') term = None) (split_ws [] (lower ''alpha'')) \<and>
   full_text alpha_then_beta = ''beta'' \<and>
   keyword_hit ''beta'' ''alpha'' = [] \<and>
   keyword_search alpha_then_beta ''alpha'' None = []"
  using keyword_fallback_latest_document[of list_adapter one_chunk "enhanced_init [] ''s''"
      "''alpha''" None "''d1''" "''t1''" "''beta''" None "''d2''" "''t2''" "''alpha''" None "''alpha''"]
  by (simp add: find_alpha alpha_then_beta_def)

subsection \<open>The indexer factory\<close>

lemma construct_class: "construct st env cls sid = Inr inst \<Longrightarrow> class_of inst = cls"
  by (cases cls) (auto split: sum.splits)

lemma lower_registry:
  "join '', '' (map fst indexer_classes) = ''semantic, basic_semantic, keyword''"
  by (simp add: indexer_classes_def)

text \<open>
  Claim C9, amended. \<open>create_indexer\<close> lower-cases the strategy name. A name that is not
  registered fails with the \<open>ValueError\<close> whose message names the lower-cased name and
  the valid choices "semantic, basic_semantic, keyword". A registered name yields what
  the constructor of its class yields: for "keyword" always a keyword indexer; for
  "basic_semantic" and "semantic" a semantic, respectively enhanced semantic, indexer over
  the store of the collection \<open>session_<id>\<close> when the configured embeddings and vector
  store can be created, and otherwise the error of that creation. The registered names
  are exactly these three, and an indexer that is returned is of the registered class.
\<close>

theorem create_indexer_outcome:
  "(map_of indexer_classes (lower name) = None \<longrightarrow>
      create_indexer st env name sid =
        Inl (ValueError (''Unknown indexing strategy: '' @ lower name @
               ''. Available: semantic, basic_semantic, keyword''))) \<and>
   (lower name = ''keyword'' \<longrightarrow>
      create_indexer st env name sid = Inr (KeywordInst (keyword_init sid))) \<and>
   (lower name = ''basic_semantic'' \<longrightarrow>
      create_indexer st env name sid =
        (case create_embeddings st env of
           Inl e \<Rightarrow> Inl e
         | Inr emb \<Rightarrow>
             (case create_vector_store st env emb (''session_'' @ sid) of
                Inl e \<Rightarrow> Inl e
              | Inr v \<Rightarrow> Inr (SemanticInst (semantic_init v sid))))) \<and>
   (lower name = ''semantic'' \<longrightarrow>
      create_indexer st env name sid =
        (case create_embeddings st env of
           Inl e \<Rightarrow> Inl e
         | Inr emb \<Rightarrow>
             (case create_vector_store st env emb (''session_'' @ sid) of
                Inl e \<Rightarrow> Inl e
              | Inr v \<Rightarrow> Inr (EnhancedInst (enhanced_init v sid))))) \<and>
   (map_of indexer_classes (lower name) \<noteq> None \<longleftrightarrow>
      lower name = ''semantic'' \<or> lower name = ''basic_semantic'' \<or>
      lower name = ''keyword'') \<and>
   (map_of indexer_classes (lower name) = Some cls \<and>
    create_indexer st env name sid = Inr inst \<longrightarrow> class_of inst = cls)"
proof (intro conjI impI)
  assume "map_of indexer_classes (lower name) = None"
  then show "create_indexer st env name sid =
        Inl (ValueError (''Unknown indexing strategy: '' @ lower name @
               ''. Available: semantic, basic_semantic, keyword''))"
    by (simp add: create_indexer_def lower_registry Let_def)
next
  assume h: "lower name = ''keyword''"
  show "create_indexer st env name sid = Inr (KeywordInst (keyword_init sid))"
    by (simp add: create_indexer_def h indexer_classes_def Let_def)
next
  assume h: "lower name = ''basic_semantic''"
  show "create_indexer st env name sid =
        (case create_embeddings st env of
           Inl e \<Rightarrow> Inl e
         | Inr emb \<Rightarrow>
             (case create_vector_store st env emb (''session_'' @ sid) of
                Inl e \<Rightarrow> Inl e
              | Inr v \<Rightarrow> Inr (SemanticInst (semantic_init v sid))))"
    by (simp add: create_indexer_def h indexer_classes_def Let_def)
next
  assume h: "lower name = ''semantic''"
  show "create_indexer st env name sid =
        (case create_embeddings st env of
           Inl e \<Rightarrow> Inl e
         | Inr emb \<Rightarrow>
             (case create_vector_store st env emb (''session_'' @ sid) of
                Inl e \<Rightarrow> Inl e
              | Inr v \<Rightarrow> Inr (EnhancedInst (enhanced_init v sid))))"
    by (simp add: create_indexer_def h indexer_classes_def Let_def)
next
  have "map_of indexer_classes (lower name) \<noteq> None \<longleftrightarrow>
        lower name \<in> fst ` set indexer_classes"
    by (simp add: map_of_eq_None_iff)
  also have "\<dots> \<longleftrightarrow> lower name \<in> {''semantic'', ''basic_semantic'', ''keyword''}"
    by (simp add: indexer_classes_def)
  finally show "map_of indexer_classes (lower name) \<noteq> None \<longleftrightarrow>
      lower name = ''semantic'' \<or> lower name = ''basic_semantic'' \<or> lower name = ''keyword''"
    by blast
next
  assume h: "map_of indexer_classes (lower name) = Some cls \<and>
    create_indexer st env name sid = Inr inst"
  then have "construct st env cls sid = Inr inst"
    by (auto simp: create_indexer_def Let_def)
  then show "class_of inst = cls"
    by (rule construct_class)
qed

text \<open>
  Claim C9 as stated fails: under the default settings (Google embeddings, no API key)
  the registered name "semantic" does not return an indexer; the constructor raises
  \<open>ValueError("Google API key is required for Google embeddings")\<close>.
\<close>

theorem create_indexer_counterexample:
  "map_of indexer_classes (lower ''semantic'') = Some EnhancedSemanticIndexer \<and>
   create_indexer default_settings bare_environment ''semantic'' ''s'' =
     Inl (ValueError ''Google API key is required for Google embeddings'')"
proof -
  have l: "lower ''semantic'' = ''semantic''" "lower ''google'' = ''google''" by code_simp+
  show ?thesis
    by (simp add: create_indexer_def l indexer_classes_def create_embeddings_def
        default_settings_def missing_def Let_def)
qed

lemma lower_names:
  "lower ''unknown-strategy'' = ''unknown-strategy''"
  "lower ''KEYWORD'' = ''keyword''"
  "lower ''Basic_Semantic'' = ''basic_semantic''"
  "lower ''semantic'' = ''semantic''"
  "lower ''google'' = ''google''"
  "lower ''chromadb'' = ''chromadb''"
  by code_simp+

theorem create_indexer_outcome_witness:
  "map_of indexer_classes (lower ''unknown-strategy'') = None \<and>
   create_indexer default_settings bare_environment ''unknown-strategy'' ''s'' =
     Inl (ValueError
       ''Unknown indexing strategy: unknown-strategy. Available: semantic, basic_semantic, keyword'') \<and>
   lower ''KEYWORD'' = ''keyword'' \<and>
   create_indexer default_settings bare_environment ''KEYWORD'' ''s'' =
     Inr (KeywordInst (keyword_init ''s'')) \<and>
   lower ''Basic_Semantic'' = ''basic_semantic'' \<and>
   create_indexer (default_settings\<lparr>google_api_key := Some ''key''\<rparr>) bare_environment
     ''Basic_Semantic'' ''s'' = Inr (SemanticInst (semantic_init [] ''s'')) \<and>
   lower ''semantic'' = ''semantic'' \<and>
   create_indexer (default_settings\<lparr>google_api_key := Some ''key''\<rparr>) bare_environment
     ''semantic'' ''s'' = Inr (EnhancedInst (enhanced_init [] ''s''))"
proof -
  let ?st = "default_settings\<lparr>google_api_key := Some ''key''\<rparr>"
  have n: "map_of indexer_classes (lower ''unknown-strategy'') = None"
    by (simp add: lower_names indexer_classes_def)
  have e: "create_embeddings ?st bare_environment =
             Inr (GoogleGenerativeAIEmbeddings ''models/text-embedding-004'')"
    by (simp add: create_embeddings_def default_settings_def lower_names missing_def Let_def)
  have v: "create_vector_store ?st bare_environment emb name = Inr []" for emb name
    by (simp add: create_vector_store_def default_settings_def lower_names bare_environment_def Let_def)
  from create_indexer_outcome[of "''unknown-strategy''" default_settings bare_environment "''s''"]
    create_indexer_outcome[of "''KEYWORD''" default_settings bare_environment "''s''"]
    create_indexer_outcome[of "''Basic_Semantic''" ?st bare_environment "''s''"]
    create_indexer_outcome[of "''semantic''" ?st bare_environment "''s''"]
  show ?thesis
    by (simp add: n e v lower_names)
qed

end
